theory Spec2Isabelle
  imports Complex_Main "HOL-Library.AList"
begin

section \<open>Numbers and truth values\<close>

text \<open>
  The plugin computes with JavaScript numbers. They are modelled as exact reals: rounding
  and overflow of the 64-bit floating-point format are not part of the model. The one
  place where a finite computation leaves the reals, a division by zero, is written out
  where the code divides (see \<open>js_div\<close> below).
\<close>

text \<open>\<open>types.ts\<close>: \<open>interface TruthValue { strength: number; uncertainty: number }\<close>.\<close>

record TruthValue =
  strength :: real
  uncertainty :: real

text \<open>
  \<open>exports/utilities.ts\<close>:
  \<^verbatim>\<open>
  export function combineTruthValues(tv1, tv2) {
    const strength = tv1.strength * tv2.strength
    const uncertainty = tv1.uncertainty + tv2.uncertainty - (tv1.uncertainty * tv2.uncertainty)
    return { strength, uncertainty: Math.min(uncertainty, 1.0) }
  }
  export function calculateConfidence(truthValue) {
    return truthValue.strength * (1 - truthValue.uncertainty)
  }
  \<close>
\<close>

definition combineTruthValues :: "TruthValue \<Rightarrow> TruthValue \<Rightarrow> TruthValue" where
  "combineTruthValues tv1 tv2 =
     \<lparr> strength = strength tv1 * strength tv2,
       uncertainty = min (uncertainty tv1 + uncertainty tv2 - uncertainty tv1 * uncertainty tv2) 1 \<rparr>"

definition calculateConfidence :: "TruthValue \<Rightarrow> real" where
  "calculateConfidence tv = strength tv * (1 - uncertainty tv)"

text \<open>
  A JavaScript number is a finite number, one of the two infinities, or \<open>NaN\<close>. (The two
  zeros are one number here: they differ only as divisors, and no divisor below is the
  negative zero.)
\<close>

datatype jsnum = Num real | PosInf | NegInf | NaN

section \<open>JSON-like values\<close>

text \<open>
  The values the plugin passes around as \<open>unknown\<close> or \<open>Record<string, unknown>\<close>: patterns,
  inputs, metadata. They are the values of JSON, together with \<open>undefined\<close> and the numbers
  that are not finite: a number is any JavaScript number, an object is the list of its own
  properties in the order of \<open>Object.keys\<close>, and a well-formed object has distinct keys.
\<close>

datatype jval =
    JUndefined
  | JNull
  | JBool bool
  | JNum jsnum
  | JStr string
  | JArr "jval list"
  | JObj "(string \<times> jval) list"

text \<open>
  What the plugin throws is an \<open>Error\<close> with a message, its own (\<open>throw new Error(...)\<close>) or
  one of the runtime. A function that may throw returns a sum: the error on the left, the
  result on the right.
\<close>

datatype error = Error string

section \<open>Hypergraph store\<close>

text \<open>\<open>types.ts\<close>: \<open>AttentionValue\<close> and \<open>HypergraphNode\<close> (its fields \<open>id\<close> and \<open>type\<close> are
  \<open>node_id\<close> and \<open>node_type\<close> here).\<close>

record AttentionValue =
  shortTermImportance :: real
  longTermImportance :: real
  vlti :: bool

record HypergraphNode =
  node_id :: string
  node_type :: string
  truthValue :: TruthValue
  attentionValue :: AttentionValue
  outgoing :: "string list"
  incoming :: "string list"
  metadata :: "(string \<times> jval) list"

text \<open>
  \<open>exports/utilities.ts\<close>:
  \<^verbatim>\<open>
  export function createDefaultTruthValue(strength = 1.0, uncertainty = 0.0) {
    return { strength: Math.max(0, Math.min(1, strength)),
             uncertainty: Math.max(0, Math.min(1, uncertainty)) }
  }
  export function createHypergraphNode(id, type, metadata = {}) {
    return { id, type, truthValue: createDefaultTruthValue(),
      attentionValue: { shortTermImportance: 0.5, longTermImportance: 0.5, vlti: false },
      outgoing: [], incoming: [], metadata }
  }
  \<close>
\<close>

definition createDefaultTruthValue :: "real \<Rightarrow> real \<Rightarrow> TruthValue" where
  "createDefaultTruthValue s u = \<lparr> strength = max 0 (min 1 s), uncertainty = max 0 (min 1 u) \<rparr>"

definition createHypergraphNode :: "string \<Rightarrow> string \<Rightarrow> (string \<times> jval) list \<Rightarrow> HypergraphNode" where
  "createHypergraphNode i t md =
     \<lparr> node_id = i, node_type = t, truthValue = createDefaultTruthValue 1 0,
       attentionValue = \<lparr> shortTermImportance = 1 / 2, longTermImportance = 1 / 2, vlti = False \<rparr>,
       outgoing = [], incoming = [], metadata = md \<rparr>"

text \<open>
  Class \<open>CognitiveHypergraph\<close>: its state is \<open>nodes: Map<string, HypergraphNode>\<close>. The
  operations below do not depend on the order of the map, which is modelled as a partial
  function from node ids to nodes. Each stored node is a value of its own: \<open>addNode\<close> stores
  a copy of the node it is given, and the model takes the adjacency arrays of different
  nodes to be different arrays, as \<open>createHypergraphNode\<close> makes them.
\<close>

type_synonym Hypergraph = "string \<rightharpoonup> HypergraphNode"

text \<open>
  \<^verbatim>\<open>
  addNode(node: HypergraphNode): void {
    this.nodes.set(node.id, { ...node })
  }
  removeLink(from: string, to: string): void {
    const fromNode = this.nodes.get(from)
    const toNode = this.nodes.get(to)
    if (fromNode) {
      fromNode.outgoing = fromNode.outgoing.filter(id => id !== to)
    }
    if (toNode) {
      toNode.incoming = toNode.incoming.filter(id => id !== from)
    }
  }
  \<close>
  When \<open>from\<close> and \<open>to\<close> are the same id, \<open>fromNode\<close> and \<open>toNode\<close> are the same object and
  both assignments change it: the second step of the model reads the node written by the
  first.
\<close>

definition addNode :: "Hypergraph \<Rightarrow> HypergraphNode \<Rightarrow> Hypergraph" where
  "addNode g node = g(node_id node \<mapsto> node)"

definition removeLink :: "Hypergraph \<Rightarrow> string \<Rightarrow> string \<Rightarrow> Hypergraph" where
  "removeLink g from to =
     (let g1 = (case g from of
                  None \<Rightarrow> g
                | Some fromNode \<Rightarrow>
                    g(from \<mapsto> fromNode\<lparr>outgoing := filter (\<lambda>i. i \<noteq> to) (outgoing fromNode)\<rparr>))
      in case g1 to of
           None \<Rightarrow> g1
         | Some toNode \<Rightarrow>
             g1(to \<mapsto> toNode\<lparr>incoming := filter (\<lambda>i. i \<noteq> from) (incoming toNode)\<rparr>))"

text \<open>
  \<^verbatim>\<open>
  addLink(from: string, to: string): void {
    const fromNode = this.nodes.get(from)
    const toNode = this.nodes.get(to)
    if (!fromNode || !toNode) {
      throw new Error(`Cannot create link: node ${from} or ${to} not found`)
    }
    if (!fromNode.outgoing.includes(to)) {
      fromNode.outgoing.push(to)
    }
    if (!toNode.incoming.includes(from)) {
      toNode.incoming.push(from)
    }
  }
  \<close>
\<close>

definition addLink :: "Hypergraph \<Rightarrow> string \<Rightarrow> string \<Rightarrow> error + Hypergraph" where
  "addLink g from to =
     (case (g from, g to) of
        (Some fromNode, Some toNode) \<Rightarrow>
          (let g1 = g(from \<mapsto> fromNode\<lparr>outgoing :=
                      (if to \<in> set (outgoing fromNode) then outgoing fromNode
                       else outgoing fromNode @ [to])\<rparr>)
           in case g1 to of
                None \<Rightarrow> Inr g1
              | Some toNode' \<Rightarrow>
                  Inr (g1(to \<mapsto> toNode'\<lparr>incoming :=
                      (if from \<in> set (incoming toNode') then incoming toNode'
                       else incoming toNode' @ [from])\<rparr>)))
      | _ \<Rightarrow> Inl (Error (''Cannot create link: node '' @ from @ '' or '' @ to @ '' not found'')))"

text \<open>
  \<^verbatim>\<open>
  removeNode(id: string): void {
    const node = this.nodes.get(id)
    if (!node) return
    for (const incomingId of node.incoming) {
      this.removeLink(incomingId, id)
    }
    for (const outgoingId of node.outgoing) {
      this.removeLink(id, outgoingId)
    }
    this.nodes.delete(id)
  }
  \<close>
  Each loop runs over the array the node holds when the loop starts (\<open>removeLink\<close> assigns
  new arrays and leaves the old ones as they are): the first over \<open>node.incoming\<close> of the
  graph as given, the second over \<open>node.outgoing\<close> as the first loop left it.
\<close>

definition removeNode :: "Hypergraph \<Rightarrow> string \<Rightarrow> Hypergraph" where
  "removeNode g i =
     (case g i of
        None \<Rightarrow> g
      | Some node \<Rightarrow>
          (let g1 = fold (\<lambda>incomingId h. removeLink h incomingId i) (incoming node) g;
               g2 = fold (\<lambda>outgoingId h. removeLink h i outgoingId)
                      (case g1 i of None \<Rightarrow> [] | Some node1 \<Rightarrow> outgoing node1) g1
           in g2(i := None)))"

text \<open>
  \<^verbatim>\<open>
  getNode(id) { return this.nodes.get(id) }
  getIncoming(id: string): HypergraphNode[] {
    const node = this.nodes.get(id)
    if (!node) return []
    return node.incoming
      .map(incomingId => this.nodes.get(incomingId))
      .filter((n): n is HypergraphNode => n !== undefined)
  }
  getOutgoing(id: string): HypergraphNode[] { ... the same with node.outgoing ... }
  \<close>
\<close>

definition getNode :: "Hypergraph \<Rightarrow> string \<Rightarrow> HypergraphNode option" where
  "getNode g i = g i"

definition getIncoming :: "Hypergraph \<Rightarrow> string \<Rightarrow> HypergraphNode list" where
  "getIncoming g i = (case g i of None \<Rightarrow> [] | Some node \<Rightarrow> List.map_filter g (incoming node))"

definition getOutgoing :: "Hypergraph \<Rightarrow> string \<Rightarrow> HypergraphNode list" where
  "getOutgoing g i = (case g i of None \<Rightarrow> [] | Some node \<Rightarrow> List.map_filter g (outgoing node))"

text \<open>
  Predicates of the properties. \<open>keyed_by_id\<close>: every node is stored under its own id, as
  \<open>addNode\<close> stores it. \<open>among i ns\<close>: the node with id \<open>i\<close> is one of \<open>ns\<close>. \<open>consistent\<close>: the
  adjacency lists agree in both directions, the invariant of the data model. \<open>referenced\<close>:
  some node of the graph has the id in one of its adjacency lists.
\<close>

definition keyed_by_id :: "Hypergraph \<Rightarrow> bool" where
  "keyed_by_id g = (\<forall>k n. g k = Some n \<longrightarrow> node_id n = k)"

definition among :: "string \<Rightarrow> HypergraphNode list \<Rightarrow> bool" where
  "among i ns = (i \<in> node_id ` set ns)"

definition out_of :: "Hypergraph \<Rightarrow> string \<Rightarrow> string list" where
  "out_of g k = (case g k of None \<Rightarrow> [] | Some n \<Rightarrow> outgoing n)"

definition in_of :: "Hypergraph \<Rightarrow> string \<Rightarrow> string list" where
  "in_of g k = (case g k of None \<Rightarrow> [] | Some n \<Rightarrow> incoming n)"

definition consistent :: "Hypergraph \<Rightarrow> bool" where
  "consistent g =
     (\<forall>a b. (b \<in> set (out_of g a) \<longrightarrow> a \<in> set (in_of g b)) \<and>
            (b \<in> set (in_of g a) \<longrightarrow> a \<in> set (out_of g b)))"

definition referenced :: "Hypergraph \<Rightarrow> string \<Rightarrow> bool" where
  "referenced g i = (\<exists>k. i \<in> set (out_of g k) \<or> i \<in> set (in_of g k))"

text \<open>
  Example graphs, built with the operations of the store: two nodes \<open>A\<close> and \<open>B\<close>; the
  same with the link from \<open>A\<close> to \<open>B\<close>; and the linked graph after \<open>addNode\<close> has been called
  once more with a new node of id \<open>A\<close>, which overwrites the stored node and its adjacency
  lists.
\<close>

definition two_nodes :: Hypergraph where
  "two_nodes = addNode (addNode Map.empty (createHypergraphNode ''A'' ''concept'' []))
                 (createHypergraphNode ''B'' ''concept'' [])"

definition linked_graph :: Hypergraph where
  "linked_graph = (case addLink two_nodes ''A'' ''B'' of Inr g \<Rightarrow> g | Inl e \<Rightarrow> Map.empty)"

definition stale_graph :: Hypergraph where
  "stale_graph = addNode linked_graph (createHypergraphNode ''A'' ''concept'' [])"

section \<open>Attention allocator\<close>

text \<open>
  \<open>types.ts\<close>: \<open>AttentionAllocationConfig\<close>. \<open>modules\<close> is a JavaScript object read
  with \<open>Object.entries\<close>; it is modelled as the list of its entries in that order.
\<close>

record AttentionAllocationConfig =
  totalBudget :: real
  modules :: "(string \<times> real) list"
  decayRate :: real
  focusThreshold :: real
  emergencyAllocation :: real

text \<open>
  \<open>attention-allocator.ts\<close>, class \<open>CognitiveAttentionAllocator\<close>. The field
  \<open>allocations\<close> is a \<open>Map<string, number>\<close> and the code depends on its iteration
  order (the sort in \<open>redistributeWithAmount\<close> is stable), so it is modelled as an
  association list in insertion order: \<open>Map.set\<close> is \<open>AList.update\<close> (an existing key keeps
  its place, a new key is appended) and \<open>Map.get\<close> is \<open>map_of\<close>. \<open>lastUpdate\<close> is a time
  stamp, supplied by the caller of the model.
\<close>

record AttentionAllocator =
  budget :: real
  allocations :: "(string \<times> real) list"
  config :: AttentionAllocationConfig
  lastUpdate :: real

text \<open>
  \<^verbatim>\<open>
  constructor(config) {
    this.config = config
    this.budget = config.totalBudget
    for (const [moduleId, allocation] of Object.entries(config.modules)) {
      this.allocations.set(moduleId, allocation)
    }
  }
  \<close>
\<close>

definition createAttentionAllocator :: "AttentionAllocationConfig \<Rightarrow> real \<Rightarrow> AttentionAllocator" where
  "createAttentionAllocator cfg now =
     \<lparr> budget = totalBudget cfg,
       allocations = fold (\<lambda>(moduleId, allocation) al. AList.update moduleId allocation al) (modules cfg) [],
       config = cfg,
       lastUpdate = now \<rparr>"

text \<open>
  \<^verbatim>\<open>
  private getTotalAllocated(): number {
    return Array.from(this.allocations.values()).reduce((sum, allocation) => sum + allocation, 0)
  }
  getBudget() { return this.budget }
  getAvailable() { return this.budget - this.getTotalAllocated() }
  getAllocation(moduleId) { return this.allocations.get(moduleId) || 0 }
  private canRedistribute(requiredAmount) {
    const available = this.getAvailable()
    const emergencyPool = this.config.emergencyAllocation
    return available + emergencyPool >= requiredAmount
  }
  \<close>
\<close>

definition getTotalAllocated :: "AttentionAllocator \<Rightarrow> real" where
  "getTotalAllocated a = foldl (+) 0 (map snd (allocations a))"

definition getBudget :: "AttentionAllocator \<Rightarrow> real" where
  "getBudget a = budget a"

definition getAvailable :: "AttentionAllocator \<Rightarrow> real" where
  "getAvailable a = budget a - getTotalAllocated a"

definition getAllocation :: "AttentionAllocator \<Rightarrow> string \<Rightarrow> real" where
  "getAllocation a moduleId = (case map_of (allocations a) moduleId of None \<Rightarrow> 0 | Some v \<Rightarrow> v)"

definition canRedistribute :: "AttentionAllocator \<Rightarrow> real \<Rightarrow> bool" where
  "canRedistribute a requiredAmount =
     (let available = getAvailable a; emergencyPool = emergencyAllocation (config a)
      in available + emergencyPool \<ge> requiredAmount)"

text \<open>
  \<^verbatim>\<open>
  private redistributeWithAmount(requiredAmount: number): void {
    const available = this.getAvailable()
    if (available >= requiredAmount) {
      return // No redistribution needed
    }
    const deficit = requiredAmount - available
    const moduleEntries = Array.from(this.allocations.entries())
      .sort((a, b) => a[1] - b[1])
    let redistributed = 0
    for (const [moduleId, allocation] of moduleEntries) {
      if (redistributed >= deficit) break
      const reduction = Math.min(allocation * 0.1, deficit - redistributed)
      this.allocations.set(moduleId, allocation - reduction)
      redistributed += reduction
    }
  }
  \<close>
  The loop runs over a snapshot of the entries, sorted by allocation (ascending, stable),
  and writes into the map; \<open>redistribute_loop\<close> is the loop, with the map and the running
  sum \<open>redistributed\<close> as its state.
\<close>

fun redistribute_loop ::
  "(string \<times> real) list \<Rightarrow> real \<Rightarrow> real \<Rightarrow> (string \<times> real) list \<Rightarrow> (string \<times> real) list" where
  "redistribute_loop [] deficit redistributed al = al"
| "redistribute_loop ((moduleId, allocation) # rest) deficit redistributed al =
     (if redistributed \<ge> deficit then al
      else let reduction = min (allocation * (1 / 10)) (deficit - redistributed)
           in redistribute_loop rest deficit (redistributed + reduction)
                (AList.update moduleId (allocation - reduction) al))"

definition redistributeWithAmount :: "AttentionAllocator \<Rightarrow> real \<Rightarrow> AttentionAllocator" where
  "redistributeWithAmount a requiredAmount =
     (let available = getAvailable a in
      if available \<ge> requiredAmount then a
      else let deficit = requiredAmount - available;
               moduleEntries = sort_key snd (allocations a)
           in a\<lparr>allocations := redistribute_loop moduleEntries deficit 0 (allocations a)\<rparr>)"

text \<open>
  \<^verbatim>\<open>
  allocate(moduleId: string, amount: number): boolean {
    const currentAllocation = this.allocations.get(moduleId) || 0
    const totalAllocated = this.getTotalAllocated()
    if (totalAllocated + amount > this.budget) {
      if (this.canRedistribute(amount)) {
        this.redistributeWithAmount(amount)
      } else {
        return false
      }
    }
    this.allocations.set(moduleId, currentAllocation + amount)
    return true
  }
  deallocate(moduleId: string, amount: number): boolean {
    const currentAllocation = this.allocations.get(moduleId) || 0
    if (currentAllocation < amount) {
      return false
    }
    this.allocations.set(moduleId, currentAllocation - amount)
    return true
  }
  \<close>
  Both return the boolean together with the allocator after the call. In \<open>allocate\<close>,
  \<open>currentAllocation\<close> is read before the redistribution and written after it.
\<close>

definition allocate :: "AttentionAllocator \<Rightarrow> string \<Rightarrow> real \<Rightarrow> bool \<times> AttentionAllocator" where
  "allocate a moduleId amount =
     (let currentAllocation = getAllocation a moduleId;
          totalAllocated = getTotalAllocated a
      in if totalAllocated + amount > budget a then
           (if canRedistribute a amount then
              (let a' = redistributeWithAmount a amount
               in (True, a'\<lparr>allocations := AList.update moduleId (currentAllocation + amount) (allocations a')\<rparr>))
            else (False, a))
         else (True, a\<lparr>allocations := AList.update moduleId (currentAllocation + amount) (allocations a)\<rparr>))"

definition deallocate :: "AttentionAllocator \<Rightarrow> string \<Rightarrow> real \<Rightarrow> bool \<times> AttentionAllocator" where
  "deallocate a moduleId amount =
     (let currentAllocation = getAllocation a moduleId
      in if currentAllocation < amount then (False, a)
         else (True, a\<lparr>allocations := AList.update moduleId (currentAllocation - amount) (allocations a)\<rparr>))"

text \<open>
  A call of \<open>allocate\<close> or \<open>deallocate\<close>, and a sequence of calls each of which returns
  \<open>true\<close>: \<open>run_calls\<close> is \<open>None\<close> as soon as one call returns \<open>false\<close>.
\<close>

datatype alloc_call = Allocate string real | Deallocate string real

fun run_call :: "AttentionAllocator \<Rightarrow> alloc_call \<Rightarrow> bool \<times> AttentionAllocator" where
  "run_call a (Allocate moduleId amount) = allocate a moduleId amount"
| "run_call a (Deallocate moduleId amount) = deallocate a moduleId amount"

fun call_amount :: "alloc_call \<Rightarrow> real" where
  "call_amount (Allocate moduleId amount) = amount"
| "call_amount (Deallocate moduleId amount) = amount"

fun run_calls :: "AttentionAllocator \<Rightarrow> alloc_call list \<Rightarrow> AttentionAllocator option" where
  "run_calls a [] = Some a"
| "run_calls a (c # cs) =
     (case run_call a c of (True, a') \<Rightarrow> run_calls a' cs | (False, a') \<Rightarrow> None)"

text \<open>
  The bound of the allocator, and the states of a well-formed allocator: the keys of the
  map are distinct (as in every \<open>Map\<close>) and no allocation is negative.
\<close>

definition within_bound :: "AttentionAllocator \<Rightarrow> bool" where
  "within_bound a = (getTotalAllocated a \<le> budget a + emergencyAllocation (config a))"

definition nonneg_allocations :: "AttentionAllocator \<Rightarrow> bool" where
  "nonneg_allocations a =
     (distinct (map fst (allocations a)) \<and> list_all (\<lambda>e. 0 \<le> snd e) (allocations a))"

text \<open>
  \<open>shrunk al al0\<close>: the map \<open>al\<close> has the keys of \<open>al0\<close>, in the same order, and each
  value lies between zero and the value \<open>al0\<close> has.
\<close>

definition shrunk :: "(string \<times> real) list \<Rightarrow> (string \<times> real) list \<Rightarrow> bool" where
  "shrunk al al0 = list_all2 (\<lambda>e e0. fst e = fst e0 \<and> 0 \<le> snd e \<and> snd e \<le> snd e0) al al0"

subsection \<open>Division by zero\<close>

text \<open>
  \<open>simulateCompetition\<close> divides by the total allocation, which may be zero. JavaScript then
  gives \<open>NaN\<close> or an infinity and goes on computing with it, so the result of the division
  is a \<open>jsnum\<close>: a real, an infinity or \<open>NaN\<close>. \<open>js_div\<close>, \<open>js_mul\<close>, \<open>js_min\<close>, \<open>js_add\<close> and
  \<open>js_le\<close> are \<open>/\<close>, \<open>*\<close>, \<open>Math.min\<close>, \<open>+\<close> and \<open><=\<close> on the operands that occur: the operands
  written as reals are finite numbers. (The divisor is a sum that starts from \<open>0\<close>, so it is
  never the negative zero.)
\<close>

definition js_div :: "real \<Rightarrow> real \<Rightarrow> jsnum" where
  "js_div a b =
     (if b \<noteq> 0 then Num (a / b) else if a > 0 then PosInf else if a < 0 then NegInf else NaN)"

fun js_mul :: "real \<Rightarrow> jsnum \<Rightarrow> jsnum" where
  "js_mul a (Num b) = Num (a * b)"
| "js_mul a PosInf = (if a > 0 then PosInf else if a < 0 then NegInf else NaN)"
| "js_mul a NegInf = (if a > 0 then NegInf else if a < 0 then PosInf else NaN)"
| "js_mul a NaN = NaN"

fun js_min :: "real \<Rightarrow> jsnum \<Rightarrow> jsnum" where
  "js_min a (Num b) = Num (min a b)"
| "js_min a PosInf = Num a"
| "js_min a NegInf = NegInf"
| "js_min a NaN = NaN"

fun js_add :: "jsnum \<Rightarrow> jsnum \<Rightarrow> jsnum" where
  "js_add (Num a) (Num b) = Num (a + b)"
| "js_add NaN y = NaN"
| "js_add x NaN = NaN"
| "js_add PosInf NegInf = NaN"
| "js_add NegInf PosInf = NaN"
| "js_add PosInf y = PosInf"
| "js_add x PosInf = PosInf"
| "js_add NegInf y = NegInf"
| "js_add x NegInf = NegInf"

fun js_le :: "jsnum \<Rightarrow> real \<Rightarrow> bool" where
  "js_le (Num a) b = (a \<le> b)"
| "js_le NegInf b = True"
| "js_le PosInf b = False"
| "js_le NaN b = False"

text \<open>
  \<^verbatim>\<open>
  simulateCompetition(demands: Map<string, number>): Map<string, number> {
    const results = new Map<string, number>()
    const totalDemand = Array.from(demands.values()).reduce((sum, demand) => sum + demand, 0)
    if (totalDemand > this.budget) {
      for (const [moduleId, demand] of demands.entries()) {
        const currentAllocation = this.allocations.get(moduleId) || 0
        const competitiveWeight = currentAllocation / this.getTotalAllocated()
        const allocation = this.budget * competitiveWeight
        results.set(moduleId, Math.min(demand, allocation))
      }
    } else {
      for (const [moduleId, demand] of demands.entries()) {
        results.set(moduleId, demand)
      }
    }
    return results
  }
  \<close>
  The demands are the entries of a \<open>Map\<close> (a list with distinct keys), and so are the
  results: one entry for each demand, in the same order. The function reads the allocator
  and writes nothing, so its model returns the results only.
\<close>

definition simulateCompetition ::
  "AttentionAllocator \<Rightarrow> (string \<times> real) list \<Rightarrow> (string \<times> jsnum) list" where
  "simulateCompetition a demands =
     (let totalDemand = foldl (+) 0 (map snd demands)
      in if totalDemand > budget a then
           map (\<lambda>(moduleId, demand).
                  let currentAllocation = getAllocation a moduleId;
                      competitiveWeight = js_div currentAllocation (getTotalAllocated a);
                      allocation = js_mul (budget a) competitiveWeight
                  in (moduleId, js_min demand allocation)) demands
         else map (\<lambda>(moduleId, demand). (moduleId, Num demand)) demands)"

text \<open>The sum of the granted amounts, added up in JavaScript's arithmetic.\<close>

definition granted_total :: "(string \<times> jsnum) list \<Rightarrow> jsnum" where
  "granted_total results = foldl js_add (Num 0) (map snd results)"

text \<open>The allocator of the scenario of claim C1, and two allocators used as examples.\<close>

definition scenario_config :: AttentionAllocationConfig where
  "scenario_config =
     \<lparr> totalBudget = 1,
       modules = [(''perception'', 3 / 10), (''reasoning'', 4 / 10), (''memory'', 3 / 10)],
       decayRate = 95 / 100, focusThreshold = 1 / 2, emergencyAllocation = 1 / 10 \<rparr>"

definition scenario_allocator :: AttentionAllocator where
  "scenario_allocator = createAttentionAllocator scenario_config 0"

definition signed_allocator :: AttentionAllocator where
  "signed_allocator = createAttentionAllocator
     \<lparr> totalBudget = 1, modules = [(''focus'', 2), (''drain'', - 1)],
       decayRate = 95 / 100, focusThreshold = 1 / 2, emergencyAllocation = 1 / 10 \<rparr> 0"

definition empty_allocator :: AttentionAllocator where
  "empty_allocator = createAttentionAllocator
     \<lparr> totalBudget = 1, modules = [],
       decayRate = 95 / 100, focusThreshold = 1 / 2, emergencyAllocation = 1 / 10 \<rparr> 0"

section \<open>Pattern matcher\<close>

text \<open>
  \<open>CognitivePatternMatcher\<close>, exact matching.
  \<^verbatim>\<open>
  private isVariable(value: unknown): boolean {
    return typeof value === 'string' && value.startsWith('$')
  }
  private getVariableName(value: unknown): string {
    return typeof value === 'string' ? value.substring(1) : 'unknown'
  }
  \<close>
\<close>

definition isVariable :: "jval \<Rightarrow> bool" where
  "isVariable v = (case v of JStr (c # cs) \<Rightarrow> c = CHR ''$'' | _ \<Rightarrow> False)"

definition getVariableName :: "jval \<Rightarrow> string" where
  "getVariableName v = (case v of JStr s \<Rightarrow> tl s | _ \<Rightarrow> ''unknown'')"

text \<open>
  What JavaScript does with the values: \<open>typeof v === 'object' && v !== null\<close> holds of
  objects and of arrays; the keys of an array are its indices in decimal notation; and
  \<open>key in v\<close> with \<open>v[key]\<close> finds the own properties of an object, and the elements and the
  \<open>length\<close> of an array. Properties inherited from \<open>Object.prototype\<close> and
  \<open>Array.prototype\<close>, which \<open>in\<close> finds too, are outside the model.
\<close>

definition is_object :: "jval \<Rightarrow> bool" where
  "is_object v = (case v of JArr xs \<Rightarrow> True | JObj kvs \<Rightarrow> True | _ \<Rightarrow> False)"

function show_nat :: "nat \<Rightarrow> string" where
  "show_nat n =
     (if n < 10 then [''0123456789'' ! n]
      else show_nat (n div 10) @ [''0123456789'' ! (n mod 10)])"
  by pat_completeness auto
termination
  by (relation "measure (\<lambda>n. n)") auto

definition lookup_in :: "jval \<Rightarrow> string \<Rightarrow> jval option" where
  "lookup_in v key =
     (case v of
        JObj kvs \<Rightarrow> map_of kvs key
      | JArr xs \<Rightarrow>
          (case List.find (\<lambda>n. show_nat n = key) [0..<length xs] of
             Some n \<Rightarrow> Some (xs ! n)
           | None \<Rightarrow> if key = ''length'' then Some (JNum (Num (real (length xs)))) else None)
      | _ \<Rightarrow> None)"

text \<open>
  \<^verbatim>\<open>
  private calculateMatchConfidence(pattern, input, bindings): number {
    let totalFields = 0
    let matchedFields = 0
    const matchRecursive = (p: unknown, i: unknown, path: string = ''): boolean => {
      totalFields++
      if (this.isVariable(p)) {
        const varName = this.getVariableName(p)
        bindings[varName] = i
        matchedFields++
        return true
      }
      if (Array.isArray(p) && Array.isArray(i)) {
        if (p.length !== i.length) return false
        for (let idx = 0; idx < p.length; idx++) {
          if (!matchRecursive(p[idx], i[idx], `${path}[${idx}]`)) {
            return false
          }
        }
        matchedFields++
        return true
      }
      if (typeof p === 'object' && p !== null && typeof i === 'object' && i !== null) {
        const pKeys = Object.keys(p)
        const iObj = i as Record<string, unknown>
        for (const key of pKeys) {
          if (!(key in iObj)) return false
          if (!matchRecursive((p as Record<string, unknown>)[key], iObj[key], `${path}.${key}`)) {
            return false
          }
        }
        matchedFields++
        return true
      }
      if (p === i) {
        matchedFields++
        return true
      }
      return false
    }
    const matched = matchRecursive(pattern, input)
    return matched ? matchedFields / totalFields : 0
  }
  \<close>
  The state of \<open>matchRecursive\<close> is \<open>(totalFields, matchedFields, bindings)\<close>; the argument
  \<open>path\<close> is never read and is left out. \<open>match_elems\<close> is the loop over two arrays of the
  same length, \<open>match_entries\<close> the loop over the keys of an object pattern, and
  \<open>match_indexed\<close> the same loop for an array pattern met by an input that is an object and
  not an array (its keys are the indices, counted by the first argument). The last test,
  \<open>p === i\<close>, is reached only when \<open>p\<close> or \<open>i\<close> is not an object; there the strict equality
  of JavaScript is the equality of the values, except that \<open>NaN\<close> is not equal to itself.
\<close>

definition strict_equal :: "jval \<Rightarrow> jval \<Rightarrow> bool" where
  "strict_equal p i = (p = i \<and> p \<noteq> JNum NaN)"

type_synonym match_state = "nat \<times> nat \<times> (string \<times> jval) list"

function (sequential) matchRecursive :: "jval \<Rightarrow> jval \<Rightarrow> match_state \<Rightarrow> bool \<times> match_state"
  and match_elems :: "jval list \<Rightarrow> jval list \<Rightarrow> match_state \<Rightarrow> bool \<times> match_state"
  and match_entries :: "(string \<times> jval) list \<Rightarrow> jval \<Rightarrow> match_state \<Rightarrow> bool \<times> match_state"
  and match_indexed :: "nat \<Rightarrow> jval list \<Rightarrow> jval \<Rightarrow> match_state \<Rightarrow> bool \<times> match_state"
where
  "matchRecursive (JArr ps) i (totalFields, matchedFields, bindings) =
     (case i of
        JArr is \<Rightarrow>
          (if length ps \<noteq> length is then (False, (totalFields + 1, matchedFields, bindings))
           else case match_elems ps is (totalFields + 1, matchedFields, bindings) of
                  (False, st) \<Rightarrow> (False, st)
                | (True, (t, m, b)) \<Rightarrow> (True, (t, m + 1, b)))
      | JObj kvs \<Rightarrow>
          (case match_indexed 0 ps i (totalFields + 1, matchedFields, bindings) of
             (False, st) \<Rightarrow> (False, st)
           | (True, (t, m, b)) \<Rightarrow> (True, (t, m + 1, b)))
      | _ \<Rightarrow> (False, (totalFields + 1, matchedFields, bindings)))"
| "matchRecursive (JObj kvs) i (totalFields, matchedFields, bindings) =
     (if is_object i then
        (case match_entries kvs i (totalFields + 1, matchedFields, bindings) of
           (False, st) \<Rightarrow> (False, st)
         | (True, (t, m, b)) \<Rightarrow> (True, (t, m + 1, b)))
      else (False, (totalFields + 1, matchedFields, bindings)))"
| "matchRecursive p i (totalFields, matchedFields, bindings) =
     (if isVariable p then
        (True, (totalFields + 1, matchedFields + 1, AList.update (getVariableName p) i bindings))
      else if strict_equal p i then (True, (totalFields + 1, matchedFields + 1, bindings))
      else (False, (totalFields + 1, matchedFields, bindings)))"
| "match_elems [] is st = (True, st)"
| "match_elems (p # ps) is st =
     (case is of
        [] \<Rightarrow> (False, st)
      | i # is' \<Rightarrow>
          (case matchRecursive p i st of
             (False, st') \<Rightarrow> (False, st')
           | (True, st') \<Rightarrow> match_elems ps is' st'))"
| "match_entries [] i st = (True, st)"
| "match_entries ((key, p) # rest) i st =
     (case lookup_in i key of
        None \<Rightarrow> (False, st)
      | Some v \<Rightarrow>
          (case matchRecursive p v st of
             (False, st') \<Rightarrow> (False, st')
           | (True, st') \<Rightarrow> match_entries rest i st'))"
| "match_indexed n [] i st = (True, st)"
| "match_indexed n (p # ps) i st =
     (case lookup_in i (show_nat n) of
        None \<Rightarrow> (False, st)
      | Some v \<Rightarrow>
          (case matchRecursive p v st of
             (False, st') \<Rightarrow> (False, st')
           | (True, st') \<Rightarrow> match_indexed (n + 1) ps i st'))"
  by pat_completeness auto
termination
  by (relation "measure (\<lambda>x. case x of
          Inl (Inl (p, i, st)) \<Rightarrow> size p
        | Inl (Inr (ps, is, st)) \<Rightarrow> size_list size ps
        | Inr (Inl (kvs, i, st)) \<Rightarrow> size_list (size_prod (\<lambda>k. 0) size) kvs
        | Inr (Inr (n, ps, i, st)) \<Rightarrow> size_list size ps)")
     simp_all

definition calculateMatchConfidence ::
  "jval \<Rightarrow> jval \<Rightarrow> (string \<times> jval) list \<Rightarrow> real \<times> (string \<times> jval) list" where
  "calculateMatchConfidence pattern input bindings =
     (case matchRecursive pattern input (0, 0, bindings) of
        (matched, (totalFields, matchedFields, bindings')) \<Rightarrow>
          (if matched then real matchedFields / real totalFields else 0, bindings'))"





section \<open>Inference engine\<close>

text \<open>
  \<open>types.ts\<close>: \<open>SymbolicRule\<close> and \<open>InferenceResult\<close>. Field names that several interfaces
  share carry the record's name here: \<open>rule_id\<close>, \<open>rule_name\<close> and \<open>rule_truthValue\<close> are
  \<open>id\<close>, \<open>name\<close> and \<open>truthValue\<close> of a rule; \<open>result_conclusion\<close>, \<open>result_premises\<close>,
  \<open>result_rule\<close> and \<open>result_truthValue\<close> are \<open>conclusion\<close>, \<open>premises\<close>, \<open>rule\<close> and
  \<open>truthValue\<close> of a result.
\<close>

record SymbolicRule =
  rule_id :: string
  rule_name :: string
  premise :: "string list"
  conclusion :: string
  rule_truthValue :: TruthValue
  variables :: "(string \<times> string) list"

record InferenceResult =
  result_conclusion :: string
  result_premises :: "string list"
  result_rule :: string
  result_truthValue :: TruthValue
  confidence :: real
  steps :: nat

text \<open>
  \<open>pln-engine.ts\<close>, class \<open>CognitivePLNEngine\<close>: the maps \<open>rules\<close> (by rule id) and \<open>facts\<close>
  (by name), iterated in insertion order, and \<open>maxInferenceDepth = 10\<close>.
\<close>

record PLNEngine =
  rules :: "(string \<times> SymbolicRule) list"
  facts :: "(string \<times> TruthValue) list"
  maxInferenceDepth :: nat

definition createPLNEngine :: PLNEngine where
  "createPLNEngine = \<lparr> rules = [], facts = [], maxInferenceDepth = 10 \<rparr>"

definition addRule :: "PLNEngine \<Rightarrow> SymbolicRule \<Rightarrow> PLNEngine" where
  "addRule e rule = e\<lparr>rules := AList.update (rule_id rule) rule (rules e)\<rparr>"

definition removeRule :: "PLNEngine \<Rightarrow> string \<Rightarrow> PLNEngine" where
  "removeRule e i = e\<lparr>rules := AList.delete i (rules e)\<rparr>"

definition addFact :: "PLNEngine \<Rightarrow> string \<Rightarrow> TruthValue \<Rightarrow> PLNEngine" where
  "addFact e nm tv = e\<lparr>facts := AList.update nm tv (facts e)\<rparr>"

definition removeFact :: "PLNEngine \<Rightarrow> string \<Rightarrow> PLNEngine" where
  "removeFact e nm = e\<lparr>facts := AList.delete nm (facts e)\<rparr>"

text \<open>
  \<^verbatim>\<open>
  private combineTruthValues(truthValues: TruthValue[]): TruthValue {
    if (truthValues.length === 0) { return { strength: 0, uncertainty: 1 } }
    if (truthValues.length === 1) { return truthValues[0]! }
    let strength = 1.0
    let uncertainty = 0.0
    for (const tv of truthValues) {
      strength *= tv.strength
      uncertainty += tv.uncertainty * (1 - uncertainty)
    }
    return { strength, uncertainty: Math.min(uncertainty, 1.0) }
  }
  private combineRuleTruthValue(ruleTruthValue, premiseTruthValue): TruthValue {
    const strength = ruleTruthValue.strength * premiseTruthValue.strength
    const uncertainty = ruleTruthValue.uncertainty + premiseTruthValue.uncertainty -
                       (ruleTruthValue.uncertainty * premiseTruthValue.uncertainty)
    return { strength, uncertainty: Math.min(uncertainty, 1.0) }
  }
  private calculateConfidence(ruleTruthValue, premiseTruthValue): number {
    const combinedTruthValue = this.combineRuleTruthValue(ruleTruthValue, premiseTruthValue)
    return combinedTruthValue.strength * (1 - combinedTruthValue.uncertainty)
  }
  \<close>
  The engine's own \<open>combineTruthValues\<close> and \<open>calculateConfidence\<close> are
  \<open>pln_combineTruthValues\<close> and \<open>pln_calculateConfidence\<close> (the helpers of
  \<open>exports/utilities.ts\<close> have the plain names).
\<close>

definition pln_combineTruthValues :: "TruthValue list \<Rightarrow> TruthValue" where
  "pln_combineTruthValues truthValues =
     (case truthValues of
        [] \<Rightarrow> \<lparr> strength = 0, uncertainty = 1 \<rparr>
      | [tv] \<Rightarrow> tv
      | _ \<Rightarrow>
          (let (s, u) = foldl (\<lambda>(s, u) tv. (s * strength tv, u + uncertainty tv * (1 - u)))
                          (1, 0) truthValues
           in \<lparr> strength = s, uncertainty = min u 1 \<rparr>))"

definition combineRuleTruthValue :: "TruthValue \<Rightarrow> TruthValue \<Rightarrow> TruthValue" where
  "combineRuleTruthValue ruleTruthValue premiseTruthValue =
     \<lparr> strength = strength ruleTruthValue * strength premiseTruthValue,
       uncertainty = min (uncertainty ruleTruthValue + uncertainty premiseTruthValue -
                          uncertainty ruleTruthValue * uncertainty premiseTruthValue) 1 \<rparr>"

definition pln_calculateConfidence :: "TruthValue \<Rightarrow> TruthValue \<Rightarrow> real" where
  "pln_calculateConfidence ruleTruthValue premiseTruthValue =
     (let combinedTruthValue = combineRuleTruthValue ruleTruthValue premiseTruthValue
      in strength combinedTruthValue * (1 - uncertainty combinedTruthValue))"

text \<open>
  \<open>results.sort((a, b) => b.confidence - a.confidence)\<close>: a stable sort by descending
  confidence.
\<close>

definition sort_by_confidence :: "InferenceResult list \<Rightarrow> InferenceResult list" where
  "sort_by_confidence results = sort_key (\<lambda>r. - confidence r) results"

subsection \<open>Backward chaining\<close>

text \<open>
  \<^verbatim>\<open>
  backwardChain(goal: string): InferenceResult[] {
    const results: InferenceResult[] = []
    const visited = new Set<string>()
    const backtrack = (currentGoal: string, depth: number = 0): InferenceResult[] => {
      if (depth > this.maxInferenceDepth || visited.has(currentGoal)) {
        return []
      }
      visited.add(currentGoal)
      const localResults: InferenceResult[] = []
      // Check if goal is already known
      if (this.facts.has(currentGoal)) {
        return [{ conclusion: currentGoal, premises: [], rule: 'fact',
          truthValue: this.facts.get(currentGoal)!,
          confidence: this.facts.get(currentGoal)!.strength, steps: depth }]
      }
      // Find rules that can prove the goal
      for (const rule of this.rules.values()) {
        if (rule.conclusion === currentGoal) {
          // Try to prove all premises
          const premiseProofs: InferenceResult[][] = []
          let allPremisesProvable = true
          for (const premise of rule.premise) {
            const premiseResults = backtrack(premise, depth + 1)
            if (premiseResults.length === 0) {
              allPremisesProvable = false
              break
            }
            premiseProofs.push(premiseResults)
          }
          if (allPremisesProvable) {
            const combinedTruthValue = this.combineTruthValues(
              premiseProofs.flat().map(p => p.truthValue))
            const inference: InferenceResult = {
              conclusion: currentGoal, premises: rule.premise, rule: rule.id,
              truthValue: this.combineRuleTruthValue(rule.truthValue, combinedTruthValue),
              confidence: this.calculateConfidence(rule.truthValue, combinedTruthValue),
              steps: depth }
            localResults.push(inference)
          }
        }
      }
      return localResults
    }
    return backtrack(goal).sort((a, b) => b.confidence - a.confidence)
  }
  \<close>
  The set \<open>visited\<close> is one set for the whole call of \<open>backwardChain\<close>: every call of
  \<open>backtrack\<close> adds to it and nothing is ever taken out. The model passes it through:
  \<open>backtrack\<close> returns its results and the set as it leaves it. \<open>try_rules\<close> is the loop over
  the rules (its results are \<open>localResults\<close>), \<open>prove_premises\<close> the loop over the premises
  of one rule, \<open>None\<close> when it breaks.
\<close>

function backtrack ::
    "PLNEngine \<Rightarrow> string \<Rightarrow> nat \<Rightarrow> string set \<Rightarrow> InferenceResult list \<times> string set"
  and try_rules ::
    "PLNEngine \<Rightarrow> string \<Rightarrow> nat \<Rightarrow> SymbolicRule list \<Rightarrow> string set \<Rightarrow> InferenceResult list \<times> string set"
  and prove_premises ::
    "PLNEngine \<Rightarrow> nat \<Rightarrow> string list \<Rightarrow> string set \<Rightarrow> InferenceResult list list option \<times> string set"
where
  "backtrack e currentGoal depth visited =
     (if depth > maxInferenceDepth e \<or> currentGoal \<in> visited then ([], visited)
      else case map_of (facts e) currentGoal of
             Some tv \<Rightarrow>
               ([\<lparr> result_conclusion = currentGoal, result_premises = [], result_rule = ''fact'',
                   result_truthValue = tv, confidence = strength tv, steps = depth \<rparr>],
                insert currentGoal visited)
           | None \<Rightarrow> try_rules e currentGoal depth (map snd (rules e)) (insert currentGoal visited))"
| "try_rules e currentGoal depth [] visited = ([], visited)"
| "try_rules e currentGoal depth (rule # rest) visited =
     (if conclusion rule = currentGoal then
        (case prove_premises e depth (premise rule) visited of
           (None, visited1) \<Rightarrow> try_rules e currentGoal depth rest visited1
         | (Some premiseProofs, visited1) \<Rightarrow>
             (let combinedTruthValue =
                    pln_combineTruthValues (map result_truthValue (concat premiseProofs));
                  inference =
                    \<lparr> result_conclusion = currentGoal, result_premises = premise rule,
                      result_rule = rule_id rule,
                      result_truthValue = combineRuleTruthValue (rule_truthValue rule) combinedTruthValue,
                      confidence = pln_calculateConfidence (rule_truthValue rule) combinedTruthValue,
                      steps = depth \<rparr>
              in case try_rules e currentGoal depth rest visited1 of
                   (others, visited2) \<Rightarrow> (inference # others, visited2)))
      else try_rules e currentGoal depth rest visited)"
| "prove_premises e depth [] visited = (Some [], visited)"
| "prove_premises e depth (p # ps) visited =
     (case backtrack e p (depth + 1) visited of
        (premiseResults, visited1) \<Rightarrow>
          (if premiseResults = [] then (None, visited1)
           else case prove_premises e depth ps visited1 of
                  (None, visited2) \<Rightarrow> (None, visited2)
                | (Some proofs, visited2) \<Rightarrow> (Some (premiseResults # proofs), visited2)))"
  by pat_completeness auto
termination
  by (relation "inv_image (less_than <*lex*> less_than <*lex*> less_than)
        (\<lambda>x. case x of
           Inl (e, g, d, v) \<Rightarrow> (2 * (maxInferenceDepth e + 1 - d), 0::nat, 0::nat)
         | Inr (Inl (e, g, d, rs, v)) \<Rightarrow> (2 * (maxInferenceDepth e + 1 - d) - 1, 2, length rs)
         | Inr (Inr (e, d, ps, v)) \<Rightarrow> (2 * (maxInferenceDepth e + 1 - d) - 1, 1, length ps))")
     auto

definition backwardChain :: "PLNEngine \<Rightarrow> string \<Rightarrow> InferenceResult list" where
  "backwardChain e goal = sort_by_confidence (fst (backtrack e goal 0 {}))"
subsection \<open>Forward chaining\<close>

text \<open>
  \<^verbatim>\<open>
  private isPatternMatch(pattern: string, fact: string): boolean {
    if (pattern === fact) return true
    if (pattern.includes('*')) {
      const regexPattern = pattern.replace(/\*/g, '.*')
      return new RegExp(`^${regexPattern}$`).test(fact)
    }
    if (pattern.startsWith('$')) {
      return true // Variables match anything
    }
    return false
  }
  private matchesPattern(premise, workingMemory): boolean {
    for (const fact of workingMemory.keys()) {
      if (this.isPatternMatch(premise, fact)) { return true }
    }
    return false
  }
  private findPatternMatch(premise, workingMemory) {
    for (const [fact, truthValue] of workingMemory.entries()) {
      if (this.isPatternMatch(premise, fact)) { return { fact, truthValue } }
    }
    return null
  }
  \<close>
  \<open>RegExp\<close> belongs to the JavaScript runtime, not to the plugin, and is a parameter of the
  model: \<open>rx source s\<close> is \<open>new RegExp(source).test(s)\<close>, an error when the source is not a
  regular expression (the constructor throws). The working memory is a \<open>Map\<close> from facts to
  truth values, an association list in insertion order.
\<close>

type_synonym regexp = "string \<Rightarrow> string \<Rightarrow> error + bool"

definition isPatternMatch :: "regexp \<Rightarrow> string \<Rightarrow> string \<Rightarrow> error + bool" where
  "isPatternMatch rx pattern factName =
     (if pattern = factName then Inr True
      else if CHR ''*'' \<in> set pattern then
        rx (''^'' @ concat (map (\<lambda>c. if c = CHR ''*'' then ''.*'' else [c]) pattern) @ ''$'') factName
      else if (case pattern of [] \<Rightarrow> False | c # cs \<Rightarrow> c = CHR ''$'') then Inr True
      else Inr False)"

fun matchesPattern :: "regexp \<Rightarrow> string \<Rightarrow> string list \<Rightarrow> error + bool" where
  "matchesPattern rx p [] = Inr False"
| "matchesPattern rx p (factName # rest) =
     (case isPatternMatch rx p factName of
        Inl err \<Rightarrow> Inl err
      | Inr True \<Rightarrow> Inr True
      | Inr False \<Rightarrow> matchesPattern rx p rest)"

fun findPatternMatch ::
  "regexp \<Rightarrow> string \<Rightarrow> (string \<times> TruthValue) list \<Rightarrow> error + (string \<times> TruthValue) option" where
  "findPatternMatch rx p [] = Inr None"
| "findPatternMatch rx p ((factName, tv) # rest) =
     (case isPatternMatch rx p factName of
        Inl err \<Rightarrow> Inl err
      | Inr True \<Rightarrow> Inr (Some (factName, tv))
      | Inr False \<Rightarrow> findPatternMatch rx p rest)"

text \<open>
  \<^verbatim>\<open>
  private canApplyRule(rule, workingMemory): boolean {
    return rule.premise.every(premise =>
      workingMemory.has(premise) || this.matchesPattern(premise, workingMemory))
  }
  \<close>
  \<open>every_premise\<close> is \<open>every\<close> over the premises, which stops at the first premise that fails.
\<close>

fun every_premise :: "regexp \<Rightarrow> (string \<times> TruthValue) list \<Rightarrow> string list \<Rightarrow> error + bool" where
  "every_premise rx workingMemory [] = Inr True"
| "every_premise rx workingMemory (p # ps) =
     (if map_of workingMemory p \<noteq> None then every_premise rx workingMemory ps
      else case matchesPattern rx p (map fst workingMemory) of
             Inl err \<Rightarrow> Inl err
           | Inr True \<Rightarrow> every_premise rx workingMemory ps
           | Inr False \<Rightarrow> Inr False)"

definition canApplyRule :: "regexp \<Rightarrow> SymbolicRule \<Rightarrow> (string \<times> TruthValue) list \<Rightarrow> error + bool" where
  "canApplyRule rx rule workingMemory = every_premise rx workingMemory (premise rule)"

text \<open>
  \<^verbatim>\<open>
  private applyRule(rule, workingMemory): InferenceResult | null {
    const premiseTruthValues: TruthValue[] = []
    const matchedPremises: string[] = []
    for (const premise of rule.premise) {
      const truthValue = workingMemory.get(premise)
      if (truthValue) {
        premiseTruthValues.push(truthValue)
        matchedPremises.push(premise)
      } else {
        const match = this.findPatternMatch(premise, workingMemory)
        if (match) {
          premiseTruthValues.push(match.truthValue)
          matchedPremises.push(match.fact)
        } else {
          return null
        }
      }
    }
    const combinedTruthValue = this.combineTruthValues(premiseTruthValues)
    const resultTruthValue = this.combineRuleTruthValue(rule.truthValue, combinedTruthValue)
    return { conclusion: rule.conclusion, premises: matchedPremises, rule: rule.id,
      truthValue: resultTruthValue,
      confidence: this.calculateConfidence(rule.truthValue, combinedTruthValue), steps: 1 }
  }
  \<close>
  \<open>match_premises\<close> is the loop: the truth values and the matched premises, \<open>None\<close> where
  the code returns \<open>null\<close>.
\<close>

fun match_premises ::
  "regexp \<Rightarrow> (string \<times> TruthValue) list \<Rightarrow> string list \<Rightarrow> error + (TruthValue list \<times> string list) option" where
  "match_premises rx workingMemory [] = Inr (Some ([], []))"
| "match_premises rx workingMemory (p # ps) =
     (case (case map_of workingMemory p of
              Some tv \<Rightarrow> Inr (Some (p, tv))
            | None \<Rightarrow> findPatternMatch rx p workingMemory) of
        Inl err \<Rightarrow> Inl err
      | Inr None \<Rightarrow> Inr None
      | Inr (Some (matched, tv)) \<Rightarrow>
          (case match_premises rx workingMemory ps of
             Inl err \<Rightarrow> Inl err
           | Inr None \<Rightarrow> Inr None
           | Inr (Some (tvs, ms)) \<Rightarrow> Inr (Some (tv # tvs, matched # ms))))"

definition applyRule ::
  "regexp \<Rightarrow> SymbolicRule \<Rightarrow> (string \<times> TruthValue) list \<Rightarrow> error + InferenceResult option" where
  "applyRule rx rule workingMemory =
     (case match_premises rx workingMemory (premise rule) of
        Inl err \<Rightarrow> Inl err
      | Inr None \<Rightarrow> Inr None
      | Inr (Some (premiseTruthValues, matchedPremises)) \<Rightarrow>
          (let combinedTruthValue = pln_combineTruthValues premiseTruthValues;
               resultTruthValue = combineRuleTruthValue (rule_truthValue rule) combinedTruthValue
           in Inr (Some \<lparr> result_conclusion = conclusion rule, result_premises = matchedPremises,
                          result_rule = rule_id rule, result_truthValue = resultTruthValue,
                          confidence = pln_calculateConfidence (rule_truthValue rule) combinedTruthValue,
                          steps = 1 \<rparr>)))"

text \<open>
  \<^verbatim>\<open>
  forwardChain(premises: string[]): InferenceResult[] {
    const results: InferenceResult[] = []
    const workingMemory = new Map<string, TruthValue>()
    premises.forEach(premise => {
      workingMemory.set(premise, { strength: 1.0, uncertainty: 0.0 })
    })
    let changed = true
    let steps = 0
    while (changed && steps < this.maxInferenceDepth) {
      changed = false
      steps++
      for (const rule of this.rules.values()) {
        if (this.canApplyRule(rule, workingMemory)) {
          const inference = this.applyRule(rule, workingMemory)
          if (inference && !workingMemory.has(inference.conclusion)) {
            workingMemory.set(inference.conclusion, inference.truthValue)
            results.push({ ...inference, steps })
            changed = true
          }
        }
      }
    }
    return results.sort((a, b) => b.confidence - a.confidence)
  }
  \<close>
  \<open>forward_rules\<close> is the loop over the rules, \<open>forward_loop\<close> the \<open>while\<close> loop; their state
  is the working memory, the results and \<open>changed\<close>.
\<close>

fun forward_rules ::
  "regexp \<Rightarrow> nat \<Rightarrow> SymbolicRule list \<Rightarrow> (string \<times> TruthValue) list \<times> InferenceResult list \<times> bool \<Rightarrow>
   error + (string \<times> TruthValue) list \<times> InferenceResult list \<times> bool" where
  "forward_rules rx n [] st = Inr st"
| "forward_rules rx n (rule # rest) (workingMemory, results, changed) =
     (case canApplyRule rx rule workingMemory of
        Inl err \<Rightarrow> Inl err
      | Inr False \<Rightarrow> forward_rules rx n rest (workingMemory, results, changed)
      | Inr True \<Rightarrow>
          (case applyRule rx rule workingMemory of
             Inl err \<Rightarrow> Inl err
           | Inr None \<Rightarrow> forward_rules rx n rest (workingMemory, results, changed)
           | Inr (Some inference) \<Rightarrow>
               (if map_of workingMemory (result_conclusion inference) = None then
                  forward_rules rx n rest
                    (AList.update (result_conclusion inference) (result_truthValue inference) workingMemory,
                     results @ [inference\<lparr>steps := n\<rparr>], True)
                else forward_rules rx n rest (workingMemory, results, changed))))"

function forward_loop ::
  "regexp \<Rightarrow> PLNEngine \<Rightarrow> (string \<times> TruthValue) list \<Rightarrow> InferenceResult list \<Rightarrow> bool \<Rightarrow> nat \<Rightarrow>
   error + InferenceResult list" where
  "forward_loop rx e workingMemory results changed n =
     (if changed \<and> n < maxInferenceDepth e then
        (case forward_rules rx (n + 1) (map snd (rules e)) (workingMemory, results, False) of
           Inl err \<Rightarrow> Inl err
         | Inr (workingMemory', results', changed') \<Rightarrow>
             forward_loop rx e workingMemory' results' changed' (n + 1))
      else Inr results)"
  by pat_completeness auto
termination
  by (relation "measure (\<lambda>(rx, e, workingMemory, results, changed, n). maxInferenceDepth e - n)") auto

definition forwardChain :: "regexp \<Rightarrow> PLNEngine \<Rightarrow> string list \<Rightarrow> error + InferenceResult list" where
  "forwardChain rx e premises =
     (let workingMemory =
            fold (\<lambda>p wm. AList.update p \<lparr> strength = 1, uncertainty = 0 \<rparr> wm) premises []
      in case forward_loop rx e workingMemory [] True 0 of
           Inl err \<Rightarrow> Inl err
         | Inr results \<Rightarrow> Inr (sort_by_confidence results))"

text \<open>A rule base in which two rules share a premise, used as an example.\<close>

definition unit_rule :: "string \<Rightarrow> string list \<Rightarrow> string \<Rightarrow> SymbolicRule" where
  "unit_rule i ps c =
     \<lparr> rule_id = i, rule_name = i, premise = ps, conclusion = c,
       rule_truthValue = \<lparr> strength = 1, uncertainty = 0 \<rparr>, variables = [] \<rparr>"

definition diamond_engine :: PLNEngine where
  "diamond_engine =
     addRule (addRule (addRule (addFact createPLNEngine ''p'' \<lparr> strength = 1, uncertainty = 0 \<rparr>)
        (unit_rule ''r1'' [''p''] ''a''))
        (unit_rule ''r2'' [''p''] ''b''))
        (unit_rule ''r3'' [''a'', ''b''] ''g'')"

section \<open>Kernel registry\<close>

text \<open>
  \<open>types.ts\<close>: \<open>TensorShape\<close>, \<open>NeuralPerceptionLayer\<close>, \<open>KernelType\<close>, \<open>CognitiveKernel\<close> and
  \<open>KernelState\<close>. The fields \<open>id\<close>, \<open>name\<close>, \<open>type\<close> and \<open>metadata\<close> of a kernel are
  \<open>kernel_id\<close>, \<open>kernel_name\<close>, \<open>kernel_type\<close> and \<open>kernel_metadata\<close>; \<open>state_id\<close> is the \<open>id\<close> of a
  state; an optional field is an \<open>option\<close>. Time stamps (\<open>new Date()\<close>) are numbers supplied
  by the caller of the model.
\<close>

datatype dtype = Float32 | Float64 | Int32 | Int64 | Boolean | String

record TensorShape =
  dimensions :: "real list"
  shape_dtype :: dtype
  shape_complexity :: real

datatype activation = Relu | Sigmoid | Tanh | Softmax | Linear

record NeuralPerceptionLayer =
  layer_name :: string
  inputShape :: TensorShape
  outputShape :: TensorShape
  weights :: "real list option"
  biases :: "real list option"
  layer_activation :: activation

datatype KernelType =
    HypergraphPrimitive
  | NeuralSymbolicBridge
  | AttentionAllocation
  | PatternMatcher
  | PerceptionLayer
  | ReasoningEngine
  | MemorySystem
  | ActionSelector

record CognitiveKernel =
  kernel_id :: string
  kernel_name :: string
  description :: string
  kernel_type :: KernelType
  tensorShape :: TensorShape
  complexity :: real
  dependencies :: "string list"
  hypergraphNodes :: "HypergraphNode list"
  neuralLayers :: "NeuralPerceptionLayer list option"
  symbolicRules :: "SymbolicRule list option"
  attentionBudget :: real
  priority :: real
  kernel_metadata :: "(string \<times> jval) list"

record KernelState =
  state_id :: string
  active :: bool
  lastActivation :: real
  activationCount :: nat
  currentAttention :: real
  performance :: real
  errors :: "string list"
  outputs :: jval

text \<open>
  \<open>kernel-registry.ts\<close>, class \<open>CognitiveKernelRegistry\<close>: the maps \<open>kernels\<close> and \<open>states\<close>, both
  by kernel id. The operations below look entries up and replace them; the order of the
  maps plays no part in them.
  \<^verbatim>\<open>
  register(kernel: CognitiveKernel): void {
    this.kernels.set(kernel.id, kernel)
    this.states.set(kernel.id, { id: kernel.id, active: false, lastActivation: new Date(),
      activationCount: 0, currentAttention: 0, performance: 1.0, errors: [], outputs: {} })
  }
  unregister(id: string): void {
    this.kernels.delete(id)
    this.states.delete(id)
  }
  get(id) { return this.kernels.get(id) }
  getState(id) { return this.states.get(id) }
  deactivate(id: string): void {
    const state = this.states.get(id)
    if (state) { state.active = false }
  }
  \<close>
\<close>

record KernelRegistry =
  kernels :: "string \<rightharpoonup> CognitiveKernel"
  states :: "string \<rightharpoonup> KernelState"

definition createKernelRegistry :: KernelRegistry where
  "createKernelRegistry = \<lparr> kernels = Map.empty, states = Map.empty \<rparr>"

definition register :: "KernelRegistry \<Rightarrow> real \<Rightarrow> CognitiveKernel \<Rightarrow> KernelRegistry" where
  "register r now k =
     \<lparr> kernels = (kernels r)(kernel_id k \<mapsto> k),
       states = (states r)(kernel_id k \<mapsto>
         \<lparr> state_id = kernel_id k, active = False, lastActivation = now, activationCount = 0,
           currentAttention = 0, performance = 1, errors = [], outputs = JObj [] \<rparr>) \<rparr>"

definition unregister :: "KernelRegistry \<Rightarrow> string \<Rightarrow> KernelRegistry" where
  "unregister r i = \<lparr> kernels = (kernels r)(i := None), states = (states r)(i := None) \<rparr>"

definition get :: "KernelRegistry \<Rightarrow> string \<Rightarrow> CognitiveKernel option" where
  "get r i = kernels r i"

definition getState :: "KernelRegistry \<Rightarrow> string \<Rightarrow> KernelState option" where
  "getState r i = states r i"

definition deactivate :: "KernelRegistry \<Rightarrow> string \<Rightarrow> KernelRegistry" where
  "deactivate r i =
     (case states r i of
        None \<Rightarrow> r
      | Some state \<Rightarrow> r\<lparr>states := (states r)(i \<mapsto> state\<lparr>active := False\<rparr>)\<rparr>)"

text \<open>
  \<^verbatim>\<open>
  async activate(id: string, input?: unknown): Promise<unknown> {
    const kernel = this.kernels.get(id)
    const state = this.states.get(id)
    if (!kernel || !state) {
      throw new Error(`Kernel ${id} not found`)
    }
    // Update kernel state
    state.active = true
    state.lastActivation = new Date()
    state.activationCount++
    state.errors = []
    try {
      const result = await this.processKernel(kernel, input)
      state.outputs = result as Record<string, unknown>
      state.performance = Math.min(1.0, state.performance + 0.01)
      return result
    } catch (error) {
      const errorMessage = error instanceof Error ? error.message : 'Unknown error'
      state.errors.push(errorMessage)
      state.performance = Math.max(0.0, state.performance - 0.1)
      throw error
    } finally {
      state.active = false
    }
  }
  \<close>
  The result of \<open>activate\<close> is the value the promise resolves to, or the error it rejects
  with, together with the registry after the call; one call runs from start to end before
  the next operation on the registry starts. \<open>processKernel\<close> and the eight handlers it
  dispatches to read the kernel and the input and nothing of the registry, and what they
  return is stored as it is: they enter the model as one parameter, a function from the
  kernel and the input to the result or the error thrown. Every error the handlers throw is
  an \<open>Error\<close>, so the message recorded is the message of the error. \<open>begin_activation\<close> is
  the state after the block that follows the lookup, \<open>activate\<close> the whole call.
\<close>

type_synonym handler = "CognitiveKernel \<Rightarrow> jval \<Rightarrow> error + jval"

definition begin_activation :: "KernelState \<Rightarrow> real \<Rightarrow> KernelState" where
  "begin_activation state now =
     state\<lparr>active := True, lastActivation := now, activationCount := activationCount state + 1,
           errors := []\<rparr>"

definition activate ::
  "handler \<Rightarrow> KernelRegistry \<Rightarrow> real \<Rightarrow> string \<Rightarrow> jval \<Rightarrow> (error + jval) \<times> KernelRegistry" where
  "activate processKernel r now i input =
     (case (kernels r i, states r i) of
        (Some k, Some state) \<Rightarrow>
          (let state1 = begin_activation state now
           in case processKernel k input of
                Inr result \<Rightarrow>
                  (Inr result,
                   r\<lparr>states := (states r)(i \<mapsto>
                      state1\<lparr>outputs := result, performance := min 1 (performance state1 + 1 / 100),
                             active := False\<rparr>)\<rparr>)
              | Inl (Error errorMessage) \<Rightarrow>
                  (Inl (Error errorMessage),
                   r\<lparr>states := (states r)(i \<mapsto>
                      state1\<lparr>errors := errors state1 @ [errorMessage],
                             performance := max 0 (performance state1 - 1 / 10),
                             active := False\<rparr>)\<rparr>))
      | _ \<Rightarrow> (Inl (Error (''Kernel '' @ i @ '' not found'')), r))"

text \<open>
  The operations that change the registry, and the registry after a sequence of them,
  starting from the empty registry.
\<close>

datatype registry_op =
    Register CognitiveKernel real
  | Unregister string
  | Activate string jval real
  | Deactivate string

fun apply_op :: "handler \<Rightarrow> KernelRegistry \<Rightarrow> registry_op \<Rightarrow> KernelRegistry" where
  "apply_op h r (Register k now) = register r now k"
| "apply_op h r (Unregister i) = unregister r i"
| "apply_op h r (Activate i input now) = snd (activate h r now i input)"
| "apply_op h r (Deactivate i) = deactivate r i"

definition run_ops :: "handler \<Rightarrow> registry_op list \<Rightarrow> KernelRegistry" where
  "run_ops h ops = foldl (apply_op h) createKernelRegistry ops"

text \<open>
  An example: a kernel in the shape \<open>createKernelTemplate\<close> gives it, and a handler that
  fails as \<open>processActionSelector\<close> does on a kernel without hypergraph nodes (\<open>reduce\<close> of an
  empty array without an initial value) and returns an empty object otherwise.
\<close>

definition template_kernel :: "string \<Rightarrow> KernelType \<Rightarrow> CognitiveKernel" where
  "template_kernel i t =
     \<lparr> kernel_id = i, kernel_name = i, description = i,
       kernel_type = t,
       tensorShape = \<lparr> dimensions = [1], shape_dtype = Float32, shape_complexity = 1 \<rparr>,
       complexity = 1, dependencies = [], hypergraphNodes = [], neuralLayers = None,
       symbolicRules = None, attentionBudget = 1 / 10, priority = 5, kernel_metadata = [] \<rparr>"

definition example_handler :: handler where
  "example_handler k input =
     (if kernel_type k = ActionSelector \<and> hypergraphNodes k = []
      then Inl (Error ''Reduce of empty array with no initial value'')
      else Inr (JObj []))"

text \<open>
  The invariant of the registries reached by the operations: there is a state for exactly
  the registered kernels, and no state holds more than one error message.
\<close>

definition registry_inv :: "KernelRegistry \<Rightarrow> bool" where
  "registry_inv r =
     (dom (kernels r) = dom (states r) \<and>
      (\<forall>i st. states r i = Some st \<longrightarrow> length (errors st) \<le> 1))"

subsection \<open>Activations that overlap\<close>

text \<open>
  \<open>activate\<close> is an \<open>async\<close> function: a call runs up to \<open>await this.processKernel(...)\<close>,
  returns its promise, and the rest of its body runs later, when the promise of the handler
  has settled. Between the two parts the caller goes on, and may call the registry again,
  \<open>activate\<close> of the same kernel included. The call keeps the state object it has read from
  \<open>states\<close> in its local variable \<open>state\<close> and writes to that object in its second part,
  whatever \<open>states\<close> holds by then. So the registry is modelled once more, with what this
  needs: the state objects in a store (a list, an object's address being its index),
  \<open>states\<close> mapping an id to an address, and the list of the activations that wait at
  \<open>await\<close>, each with the address of its state object and with what the promise of its
  handler settles to. (\<open>processKernel\<close> and the handlers run their bodies when they are
  called; the parameter \<open>processKernel\<close> of the model is as above.)
\<close>

record AsyncRegistry =
  kernel_map :: "string \<rightharpoonup> CognitiveKernel"
  state_ref :: "string \<rightharpoonup> nat"
  state_objects :: "KernelState list"
  awaiting :: "(nat \<times> (error + jval)) list"

definition emptyAsyncRegistry :: AsyncRegistry where
  "emptyAsyncRegistry =
     \<lparr> kernel_map = Map.empty, state_ref = Map.empty, state_objects = [], awaiting = [] \<rparr>"

text \<open>An assignment to fields of the state object at an address.\<close>

definition modify_object ::
  "nat \<Rightarrow> (KernelState \<Rightarrow> KernelState) \<Rightarrow> KernelState list \<Rightarrow> KernelState list" where
  "modify_object a f objs = (if a < length objs then objs[a := f (objs ! a)] else objs)"

text \<open>
  \<open>register\<close> creates a new state object; \<open>unregister\<close> removes the entries of the two
  maps and leaves the objects alone; \<open>deactivate\<close> writes to the object \<open>states\<close> holds;
  \<open>getState\<close> returns it.
\<close>

definition register_object :: "AsyncRegistry \<Rightarrow> real \<Rightarrow> CognitiveKernel \<Rightarrow> AsyncRegistry" where
  "register_object s now k =
     s\<lparr> kernel_map := (kernel_map s)(kernel_id k \<mapsto> k),
        state_ref := (state_ref s)(kernel_id k \<mapsto> length (state_objects s)),
        state_objects := state_objects s @
          [\<lparr> state_id = kernel_id k, active = False, lastActivation = now, activationCount = 0,
             currentAttention = 0, performance = 1, errors = [], outputs = JObj [] \<rparr>] \<rparr>"

definition unregister_object :: "AsyncRegistry \<Rightarrow> string \<Rightarrow> AsyncRegistry" where
  "unregister_object s i =
     s\<lparr> kernel_map := (kernel_map s)(i := None), state_ref := (state_ref s)(i := None) \<rparr>"

definition deactivate_object :: "AsyncRegistry \<Rightarrow> string \<Rightarrow> AsyncRegistry" where
  "deactivate_object s i =
     (case state_ref s i of
        None \<Rightarrow> s
      | Some a \<Rightarrow> s\<lparr>state_objects := modify_object a (\<lambda>state. state\<lparr>active := False\<rparr>) (state_objects s)\<rparr>)"

definition current_state :: "AsyncRegistry \<Rightarrow> string \<Rightarrow> KernelState option" where
  "current_state s i =
     (case state_ref s i of
        None \<Rightarrow> None
      | Some a \<Rightarrow> if a < length (state_objects s) then Some (state_objects s ! a) else None)"

text \<open>
  The first part of \<open>activate\<close>, up to \<open>await\<close>: the error thrown if the kernel is not
  found (the promise is then rejected and nothing waits), and the registry. The second part,
  for the \<open>n\<close>-th of the waiting activations: \<open>settle\<close> is what the rest of the body does to
  the state object, the \<open>try\<close> block after \<open>await\<close> or the \<open>catch\<close> block, each followed by
  \<open>finally\<close>.
\<close>

definition activate_call ::
  "handler \<Rightarrow> AsyncRegistry \<Rightarrow> real \<Rightarrow> string \<Rightarrow> jval \<Rightarrow> error option \<times> AsyncRegistry" where
  "activate_call processKernel s now i input =
     (case (kernel_map s i, state_ref s i) of
        (Some k, Some a) \<Rightarrow>
          (None,
           s\<lparr> state_objects := modify_object a (\<lambda>state. begin_activation state now) (state_objects s),
              awaiting := awaiting s @ [(a, processKernel k input)] \<rparr>)
      | _ \<Rightarrow> (Some (Error (''Kernel '' @ i @ '' not found'')), s))"

definition settle :: "error + jval \<Rightarrow> KernelState \<Rightarrow> KernelState" where
  "settle outcome state =
     (case outcome of
        Inr result \<Rightarrow>
          state\<lparr>outputs := result, performance := min 1 (performance state + 1 / 100),
                active := False\<rparr>
      | Inl (Error errorMessage) \<Rightarrow>
          state\<lparr>errors := errors state @ [errorMessage],
                performance := max 0 (performance state - 1 / 10),
                active := False\<rparr>)"

definition activate_resume :: "AsyncRegistry \<Rightarrow> nat \<Rightarrow> AsyncRegistry" where
  "activate_resume s n =
     (if n < length (awaiting s) then
        (case awaiting s ! n of
           (a, outcome) \<Rightarrow>
             s\<lparr> state_objects := modify_object a (settle outcome) (state_objects s),
                awaiting := take n (awaiting s) @ drop (Suc n) (awaiting s) \<rparr>)
      else s)"

text \<open>
  What happens to a registry, one event after the other, from the empty registry on: the
  calls of \<open>register\<close>, \<open>unregister\<close> and \<open>deactivate\<close>, the calls of \<open>activate\<close> (their first
  part), and the resumptions of waiting activations (their second part), in any order.
\<close>

datatype registry_event =
    Registers CognitiveKernel real
  | Unregisters string
  | Deactivates string
  | ActivateCalled string jval real
  | ActivateResumes nat

fun registry_step :: "handler \<Rightarrow> AsyncRegistry \<Rightarrow> registry_event \<Rightarrow> AsyncRegistry" where
  "registry_step h s (Registers k now) = register_object s now k"
| "registry_step h s (Unregisters i) = unregister_object s i"
| "registry_step h s (Deactivates i) = deactivate_object s i"
| "registry_step h s (ActivateCalled i input now) = snd (activate_call h s now i input)"
| "registry_step h s (ActivateResumes n) = activate_resume s n"

definition run_events :: "handler \<Rightarrow> registry_event list \<Rightarrow> AsyncRegistry" where
  "run_events h evs = foldl (registry_step h) emptyAsyncRegistry evs"

text \<open>
  The sequences of events in which activations do not overlap: \<open>activate\<close> is not called on
  a kernel while an activation that has read the same state object is waiting.
\<close>

fun no_overlap_at :: "AsyncRegistry \<Rightarrow> registry_event \<Rightarrow> bool" where
  "no_overlap_at s (ActivateCalled i input now) =
     (case state_ref s i of None \<Rightarrow> True | Some a \<Rightarrow> a \<notin> fst ` set (awaiting s))"
| "no_overlap_at s e = True"

fun no_overlap :: "handler \<Rightarrow> AsyncRegistry \<Rightarrow> registry_event list \<Rightarrow> bool" where
  "no_overlap h s [] = True"
| "no_overlap h s (e # es) = (no_overlap_at s e \<and> no_overlap h (registry_step h s e) es)"

text \<open>
  The invariant of these sequences: no state object is waited for twice, no state object
  holds more than one error message, and one that is waited for holds none.
\<close>

definition errors_inv :: "AsyncRegistry \<Rightarrow> bool" where
  "errors_inv s =
     (distinct (map fst (awaiting s)) \<and>
      (\<forall>a < length (state_objects s).
         length (errors (state_objects s ! a)) \<le> 1 \<and>
         (a \<in> fst ` set (awaiting s) \<longrightarrow> errors (state_objects s ! a) = [])))"

section \<open>Properties of the truth-value helpers\<close>

text \<open>
  Claim C7. \<open>combineTruthValues\<close> is commutative, and its strength component is
  associative: combining \<open>a\<close> with \<open>b\<close> and then with \<open>c\<close> gives the same strength as
  combining \<open>a\<close> with the combination of \<open>b\<close> and \<open>c\<close>. Over the reals both hold for
  all truth values, the ones with components in \<open>[0,1]\<close> included, and the equality of
  strengths is exact.
\<close>

theorem combineTruthValues_comm_assoc:
  "combineTruthValues a b = combineTruthValues b a \<and>
   strength (combineTruthValues (combineTruthValues a b) c) =
   strength (combineTruthValues a (combineTruthValues b c))"
  by (simp add: combineTruthValues_def mult.commute add.commute mult.assoc)

text \<open>
  The confidence of a truth value whose strength and uncertainty lie in \<open>[0,1]\<close> lies in
  \<open>[0,1]\<close>.
\<close>

theorem calculateConfidence_range:
  assumes "0 \<le> strength tv" "strength tv \<le> 1" "0 \<le> uncertainty tv" "uncertainty tv \<le> 1"
  shows "0 \<le> calculateConfidence tv \<and> calculateConfidence tv \<le> 1"
proof -
  have "0 \<le> 1 - uncertainty tv" "1 - uncertainty tv \<le> 1" using assms by simp_all
  then show ?thesis
    using assms by (simp add: calculateConfidence_def mult_le_one)
qed

theorem calculateConfidence_range_witness:
  "0 \<le> strength \<lparr> strength = 9 / 10, uncertainty = 1 / 10 \<rparr> \<and>
   strength \<lparr> strength = 9 / 10, uncertainty = 1 / 10 \<rparr> \<le> 1 \<and>
   0 \<le> uncertainty \<lparr> strength = 9 / 10, uncertainty = 1 / 10 \<rparr> \<and>
   uncertainty \<lparr> strength = 9 / 10, uncertainty = 1 / 10 \<rparr> \<le> 1 \<and>
   calculateConfidence \<lparr> strength = 9 / 10, uncertainty = 1 / 10 \<rparr> = 81 / 100 \<and>
   0 \<le> calculateConfidence \<lparr> strength = 9 / 10, uncertainty = 1 / 10 \<rparr> \<and>
   calculateConfidence \<lparr> strength = 9 / 10, uncertainty = 1 / 10 \<rparr> \<le> 1"
  using calculateConfidence_range[of "\<lparr> strength = 9 / 10, uncertainty = 1 / 10 \<rparr>"]
  by (simp add: calculateConfidence_def)

section \<open>Properties of the attention allocator\<close>

text \<open>
  Claim C1. An allocator built with total budget 1.0, module allocations perception 0.3,
  reasoning 0.4 and memory 0.3 and an emergency allocation of 0.1 (whatever its decay rate,
  focus threshold and creation time) has nothing available; allocating a further 0.1 to
  perception succeeds, and perception then holds 0.4.
\<close>

theorem allocate_scenario:
  "getAvailable (createAttentionAllocator
       \<lparr> totalBudget = 1, modules = [(''perception'', 3 / 10), (''reasoning'', 4 / 10), (''memory'', 3 / 10)],
         decayRate = d, focusThreshold = f, emergencyAllocation = 1 / 10 \<rparr> now) = 0 \<and>
   fst (allocate (createAttentionAllocator
       \<lparr> totalBudget = 1, modules = [(''perception'', 3 / 10), (''reasoning'', 4 / 10), (''memory'', 3 / 10)],
         decayRate = d, focusThreshold = f, emergencyAllocation = 1 / 10 \<rparr> now) ''perception'' (1 / 10)) = True \<and>
   getAllocation (snd (allocate (createAttentionAllocator
       \<lparr> totalBudget = 1, modules = [(''perception'', 3 / 10), (''reasoning'', 4 / 10), (''memory'', 3 / 10)],
         decayRate = d, focusThreshold = f, emergencyAllocation = 1 / 10 \<rparr> now) ''perception'' (1 / 10)))
     ''perception'' = 4 / 10"
  by (simp add: createAttentionAllocator_def getAvailable_def getTotalAllocated_def allocate_def
      getAllocation_def canRedistribute_def redistributeWithAmount_def Let_def)

text \<open>The total is the sum of the allocations.\<close>

lemma foldl_plus_sum_list: "foldl (+) (s::real) xs = s + sum_list xs"
  by (induction xs arbitrary: s) simp_all

lemma getTotalAllocated_sum: "getTotalAllocated a = sum_list (map snd (allocations a))"
  by (simp add: getTotalAllocated_def foldl_plus_sum_list)

lemma sum_update:
  "sum_list (map snd (AList.update k (v::real) al)) =
   sum_list (map snd al) - (case map_of al k of None \<Rightarrow> 0 | Some old \<Rightarrow> old) + v"
  by (induction al) auto

lemma sum_update_add:
  "sum_list (map snd (AList.update k (x + y) al)) =
   sum_list (map snd (AList.update k (x::real) al)) + y"
  by (simp add: sum_update)

lemma nonneg_lookup:
  "list_all (\<lambda>e. 0 \<le> snd e) al \<Longrightarrow>
   0 \<le> (case map_of al m of None \<Rightarrow> 0 | Some (v::real) \<Rightarrow> v)"
  by (induction al) (auto split: option.splits)

lemma nonneg_update:
  "list_all (\<lambda>e. 0 \<le> snd e) al \<Longrightarrow> 0 \<le> (v::real) \<Longrightarrow>
   list_all (\<lambda>e. 0 \<le> snd e) (AList.update k v al)"
  by (induction al) auto

subsection \<open>The redistribution only shrinks allocations\<close>

lemma shrunk_refl: "list_all (\<lambda>e. 0 \<le> snd e) al \<Longrightarrow> shrunk al al"
  by (induction al) (auto simp: shrunk_def)

lemma shrunk_keys: "shrunk al al0 \<Longrightarrow> map fst al = map fst al0"
  unfolding shrunk_def by (induction al al0 rule: list_all2_induct) auto

lemma shrunk_sum: "shrunk al al0 \<Longrightarrow> sum_list (map snd al) \<le> sum_list (map snd al0)"
  unfolding shrunk_def by (induction al al0 rule: list_all2_induct) auto

lemma shrunk_nonneg: "shrunk al al0 \<Longrightarrow> list_all (\<lambda>e. 0 \<le> snd e) al"
  unfolding shrunk_def by (induction al al0 rule: list_all2_induct) auto

lemma shrunk_update:
  "shrunk al al0 \<Longrightarrow> distinct (map fst al0) \<Longrightarrow> (k, a) \<in> set al0 \<Longrightarrow> 0 \<le> v \<Longrightarrow> v \<le> a \<Longrightarrow>
   shrunk (AList.update k v al) al0"
  unfolding shrunk_def
proof (induction al al0 rule: list_all2_induct)
  case Nil
  then show ?case by simp
next
  case (Cons e al e0 al0)
  obtain k0 a0 where e0: "e0 = (k0, a0)" by (cases e0)
  show ?case
  proof (cases "k0 = k")
    case True
    with Cons.prems e0 have "a0 = a" by (auto simp: rev_image_eqI)
    with True Cons e0 show ?thesis by simp
  next
    case False
    with Cons e0 show ?thesis by auto
  qed
qed

lemma redistribute_loop_shrunk:
  "shrunk al al0 \<Longrightarrow> distinct (map fst al0) \<Longrightarrow> list_all (\<lambda>e. 0 \<le> snd e) al0 \<Longrightarrow>
   set entries \<subseteq> set al0 \<Longrightarrow>
   shrunk (redistribute_loop entries deficit redistributed al) al0"
proof (induction entries deficit redistributed al rule: redistribute_loop.induct)
  case (1 deficit redistributed al)
  then show ?case by simp
next
  case (2 moduleId allocation rest deficit redistributed al)
  show ?case
  proof (cases "redistributed \<ge> deficit")
    case True
    then show ?thesis using 2 by simp
  next
    case False
    define reduction where "reduction = min (allocation * (1 / 10)) (deficit - redistributed)"
    have mem: "(moduleId, allocation) \<in> set al0" using "2.prems" by simp
    have nn: "0 \<le> allocation"
      using "2.prems"(3) mem by (auto simp: list_all_iff)
    have red: "0 \<le> reduction" "reduction \<le> allocation"
      using nn False by (auto simp: reduction_def min_def)
    have "shrunk (AList.update moduleId (allocation - reduction) al) al0"
      using shrunk_update[OF "2.prems"(1,2) mem] red by simp
    moreover have "set rest \<subseteq> set al0" using "2.prems" by simp
    ultimately have "shrunk (redistribute_loop rest deficit (redistributed + reduction)
        (AList.update moduleId (allocation - reduction) al)) al0"
      using "2.IH"[OF False reduction_def] "2.prems"(2,3) by blast
    then show ?thesis using False by (simp add: reduction_def Let_def)
  qed
qed

lemma redistributeWithAmount_shrunk:
  assumes "nonneg_allocations a"
  shows "shrunk (allocations (redistributeWithAmount a r)) (allocations a)"
    and "budget (redistributeWithAmount a r) = budget a"
    and "config (redistributeWithAmount a r) = config a"
proof -
  have nn: "list_all (\<lambda>e. 0 \<le> snd e) (allocations a)" and d: "distinct (map fst (allocations a))"
    using assms by (simp_all add: nonneg_allocations_def)
  show "shrunk (allocations (redistributeWithAmount a r)) (allocations a)"
    using redistribute_loop_shrunk[OF shrunk_refl[OF nn] d nn, of "sort_key snd (allocations a)"]
    by (simp add: redistributeWithAmount_def Let_def shrunk_refl[OF nn])
  show "budget (redistributeWithAmount a r) = budget a"
    and "config (redistributeWithAmount a r) = config a"
    by (simp_all add: redistributeWithAmount_def Let_def)
qed

text \<open>
  \<open>allocate\<close> writes the allocation it read before the redistribution: the module's own
  reduction is undone, and the total is at most the old total.
\<close>

lemma shrunk_set_current:
  assumes s: "shrunk al al0" and d: "distinct (map fst al0)" and nn: "list_all (\<lambda>e. 0 \<le> snd e) al0"
  shows "sum_list (map snd (AList.update m (case map_of al0 m of None \<Rightarrow> 0 | Some v \<Rightarrow> v) al))
         \<le> sum_list (map snd al0)"
proof (cases "map_of al0 m")
  case None
  then have "m \<notin> fst ` set al0" by (simp add: map_of_eq_None_iff)
  then have "m \<notin> fst ` set al" using shrunk_keys[OF s] by (metis set_map)
  then have "map_of al m = None" by (simp add: map_of_eq_None_iff)
  then show ?thesis using None shrunk_sum[OF s] by (simp add: sum_update)
next
  case (Some v)
  then have mem: "(m, v) \<in> set al0" by (rule map_of_SomeD)
  then have "0 \<le> v" using nn by (auto simp: list_all_iff)
  then have "shrunk (AList.update m v al) al0"
    using shrunk_update[OF s d mem] by simp
  then show ?thesis using Some shrunk_sum by simp
qed

subsection \<open>A successful call keeps the bound\<close>

lemma allocate_preserves:
  assumes nn: "nonneg_allocations a" and e: "0 \<le> emergencyAllocation (config a)"
    and am: "0 \<le> amount" and ok: "allocate a m amount = (True, a')"
  shows "within_bound a' \<and> nonneg_allocations a' \<and> budget a' = budget a \<and> config a' = config a"
proof -
  have nnl: "list_all (\<lambda>e. 0 \<le> snd e) (allocations a)" and d: "distinct (map fst (allocations a))"
    using nn by (simp_all add: nonneg_allocations_def)
  have cur: "0 \<le> getAllocation a m"
    using nonneg_lookup[OF nnl] by (simp add: getAllocation_def)
  show ?thesis
  proof (cases "getTotalAllocated a + amount > budget a")
    case False
    then have a': "a' = a\<lparr>allocations := AList.update m (getAllocation a m + amount) (allocations a)\<rparr>"
      using ok by (simp add: allocate_def Let_def)
    have "getTotalAllocated a' = getTotalAllocated a + amount"
      by (simp add: a' getTotalAllocated_sum sum_update getAllocation_def split: option.splits)
    moreover have "nonneg_allocations a'"
      using nonneg_update[OF nnl, of "getAllocation a m + amount" m] d cur am
      by (simp add: nonneg_allocations_def a' AList.distinct_update)
    ultimately show ?thesis using False e by (simp add: within_bound_def a')
  next
    case True
    then have can: "canRedistribute a amount"
      using ok by (auto simp: allocate_def Let_def split: if_splits)
    define r where "r = redistributeWithAmount a amount"
    have a': "a' = r\<lparr>allocations := AList.update m (getAllocation a m + amount) (allocations r)\<rparr>"
      using ok True can by (simp add: allocate_def Let_def r_def)
    have s: "shrunk (allocations r) (allocations a)" and b: "budget r = budget a" and c: "config r = config a"
      using redistributeWithAmount_shrunk[OF nn] by (simp_all add: r_def)
    have "sum_list (map snd (AList.update m (getAllocation a m) (allocations r))) \<le> getTotalAllocated a"
      using shrunk_set_current[OF s d nnl] by (simp add: getAllocation_def getTotalAllocated_sum)
    then have "getTotalAllocated a' \<le> getTotalAllocated a + amount"
      by (simp add: a' getTotalAllocated_sum sum_update_add)
    moreover have "getTotalAllocated a + amount \<le> budget a + emergencyAllocation (config a)"
      using can by (simp add: canRedistribute_def getAvailable_def Let_def)
    moreover have "nonneg_allocations a'"
      using nonneg_update[OF shrunk_nonneg[OF s], of "getAllocation a m + amount" m] d cur am
        shrunk_keys[OF s]
      by (simp add: nonneg_allocations_def a' AList.distinct_update)
    ultimately show ?thesis using b c by (simp add: within_bound_def a')
  qed
qed

lemma deallocate_preserves:
  assumes nn: "nonneg_allocations a" and wb: "within_bound a"
    and am: "0 \<le> amount" and ok: "deallocate a m amount = (True, a')"
  shows "within_bound a' \<and> nonneg_allocations a' \<and> budget a' = budget a \<and> config a' = config a"
proof -
  have nnl: "list_all (\<lambda>e. 0 \<le> snd e) (allocations a)" and d: "distinct (map fst (allocations a))"
    using nn by (simp_all add: nonneg_allocations_def)
  have ge: "amount \<le> getAllocation a m"
    using ok by (auto simp: deallocate_def Let_def split: if_splits)
  have a': "a' = a\<lparr>allocations := AList.update m (getAllocation a m - amount) (allocations a)\<rparr>"
    using ok by (auto simp: deallocate_def Let_def split: if_splits)
  have "getTotalAllocated a' = getTotalAllocated a - amount"
    by (simp add: a' getTotalAllocated_sum sum_update getAllocation_def split: option.splits)
  moreover have "nonneg_allocations a'"
    using nonneg_update[OF nnl, of "getAllocation a m - amount" m] d ge
    by (simp add: nonneg_allocations_def a' AList.distinct_update)
  ultimately show ?thesis using wb am by (simp add: within_bound_def a')
qed

lemma run_call_preserves:
  assumes "nonneg_allocations a" "within_bound a" "0 \<le> emergencyAllocation (config a)"
    "0 \<le> call_amount c" "run_call a c = (True, a')"
  shows "within_bound a' \<and> nonneg_allocations a' \<and> budget a' = budget a \<and> config a' = config a"
proof (cases c)
  case (Allocate m amount)
  then show ?thesis using assms allocate_preserves[of a amount m a'] by simp
next
  case (Deallocate m amount)
  then show ?thesis using assms deallocate_preserves[of a amount m a'] by simp
qed

text \<open>
  Claim C4, as amended. Start from an allocator whose allocations are not negative, whose
  emergency allocation is not negative and whose total allocation is at most budget plus
  emergency allocation. After any finite sequence of \<open>allocate\<close> and \<open>deallocate\<close> calls with
  amounts that are not negative, each of which returns \<open>true\<close>, the total allocation is
  still at most budget plus emergency allocation.
\<close>

theorem calls_within_bound:
  assumes "nonneg_allocations a" and "0 \<le> emergencyAllocation (config a)" and "within_bound a"
    and "list_all (\<lambda>c. 0 \<le> call_amount c) calls"
    and "run_calls a calls = Some a'"
  shows "getTotalAllocated a' \<le> budget a' + emergencyAllocation (config a')"
  using assms
proof (induction calls arbitrary: a)
  case Nil
  then show ?case by (simp add: within_bound_def)
next
  case (Cons c cs)
  from Cons.prems(5) obtain a1 where step: "run_call a c = (True, a1)" and rest: "run_calls a1 cs = Some a'"
    by (auto split: prod.splits bool.splits)
  have "within_bound a1 \<and> nonneg_allocations a1 \<and> budget a1 = budget a \<and> config a1 = config a"
    using run_call_preserves[OF Cons.prems(1,3,2) _ step] Cons.prems(4) by simp
  then show ?case using Cons.IH[OF _ _ _ _ rest] Cons.prems(2,4) by simp
qed

text \<open>
  The theorem at the scenario's allocator: 0.1 more for perception (granted through the
  redistribution), then 0.1 less for memory.
\<close>

theorem calls_within_bound_witness:
  "nonneg_allocations scenario_allocator \<and>
   0 \<le> emergencyAllocation (config scenario_allocator) \<and>
   within_bound scenario_allocator \<and>
   list_all (\<lambda>c. 0 \<le> call_amount c) [Allocate ''perception'' (1 / 10), Deallocate ''memory'' (1 / 10)] \<and>
   run_calls scenario_allocator [Allocate ''perception'' (1 / 10), Deallocate ''memory'' (1 / 10)] =
     Some \<lparr> budget = 1,
            allocations = [(''perception'', 4 / 10), (''reasoning'', 36 / 100), (''memory'', 17 / 100)],
            config = scenario_config, lastUpdate = 0 \<rparr> \<and>
   getTotalAllocated \<lparr> budget = 1,
            allocations = [(''perception'', 4 / 10), (''reasoning'', 36 / 100), (''memory'', 17 / 100)],
            config = scenario_config, lastUpdate = 0 \<rparr> \<le> 1 + emergencyAllocation scenario_config"
proof -
  have h1: "nonneg_allocations scenario_allocator"
    by (simp add: scenario_allocator_def scenario_config_def createAttentionAllocator_def
        nonneg_allocations_def within_bound_def)
  have h2: "0 \<le> emergencyAllocation (config scenario_allocator)"
    by (simp add: scenario_allocator_def scenario_config_def createAttentionAllocator_def
        within_bound_def)
  have h3: "within_bound scenario_allocator"
    by (simp add: scenario_allocator_def scenario_config_def createAttentionAllocator_def
        getTotalAllocated_def within_bound_def)
  have h4: "list_all (\<lambda>c. 0 \<le> call_amount c) [Allocate ''perception'' (1 / 10), Deallocate ''memory'' (1 / 10)]"
    by simp
  have h5: "run_calls scenario_allocator [Allocate ''perception'' (1 / 10), Deallocate ''memory'' (1 / 10)] =
     Some \<lparr> budget = 1,
            allocations = [(''perception'', 4 / 10), (''reasoning'', 36 / 100), (''memory'', 17 / 100)],
            config = scenario_config, lastUpdate = 0 \<rparr>"
    by (simp add: scenario_allocator_def scenario_config_def createAttentionAllocator_def
        allocate_def getAllocation_def getTotalAllocated_def
      getAvailable_def canRedistribute_def redistributeWithAmount_def Let_def deallocate_def within_bound_def)
  from calls_within_bound[OF h1 h2 h3 h4 h5] h1 h2 h3 h4 h5 show ?thesis by simp
qed

text \<open>
  Claim C4 as stated fails: \<open>deallocate\<close> does not look at the sign of the amount. On the
  scenario's allocator, whose total 1.0 is within the bound 1.1, the call
  \<open>deallocate('perception', -0.5)\<close> returns \<open>true\<close> and leaves a total of 1.5.
\<close>

theorem deallocate_negative_amount_exceeds:
  "within_bound scenario_allocator \<and>
   run_calls scenario_allocator [Deallocate ''perception'' (- (1 / 2))] =
     Some \<lparr> budget = 1,
            allocations = [(''perception'', 8 / 10), (''reasoning'', 4 / 10), (''memory'', 3 / 10)],
            config = scenario_config, lastUpdate = 0 \<rparr> \<and>
   getTotalAllocated \<lparr> budget = 1,
            allocations = [(''perception'', 8 / 10), (''reasoning'', 4 / 10), (''memory'', 3 / 10)],
            config = scenario_config, lastUpdate = 0 \<rparr> = 3 / 2 \<and>
   1 + emergencyAllocation scenario_config = 11 / 10 \<and>
   \<not> within_bound \<lparr> budget = 1,
            allocations = [(''perception'', 8 / 10), (''reasoning'', 4 / 10), (''memory'', 3 / 10)],
            config = scenario_config, lastUpdate = 0 \<rparr>"
  by (simp add: scenario_allocator_def scenario_config_def createAttentionAllocator_def
      deallocate_def getAllocation_def getTotalAllocated_def Let_def within_bound_def)

text \<open>
  The other hypotheses of the amended claim are needed as well. A state that starts above
  the bound stays above it after a successful call (all numbers positive):
\<close>

lemma over_allocated_start_exceeds:
  "run_calls (createAttentionAllocator
       \<lparr> totalBudget = 1, modules = [(''a'', 8 / 10), (''b'', 8 / 10)],
         decayRate = 95 / 100, focusThreshold = 1 / 2, emergencyAllocation = 1 / 10 \<rparr> 0)
     [Deallocate ''a'' (1 / 10)] =
     Some \<lparr> budget = 1, allocations = [(''a'', 7 / 10), (''b'', 8 / 10)],
            config = \<lparr> totalBudget = 1, modules = [(''a'', 8 / 10), (''b'', 8 / 10)],
               decayRate = 95 / 100, focusThreshold = 1 / 2, emergencyAllocation = 1 / 10 \<rparr>,
            lastUpdate = 0 \<rparr> \<and>
   getTotalAllocated \<lparr> budget = 1, allocations = [(''a'', 7 / 10), (''b'', 8 / 10)],
            config = \<lparr> totalBudget = 1, modules = [(''a'', 8 / 10), (''b'', 8 / 10)],
               decayRate = 95 / 100, focusThreshold = 1 / 2, emergencyAllocation = 1 / 10 \<rparr>,
            lastUpdate = 0 \<rparr> = 3 / 2 \<and>
   \<not> within_bound \<lparr> budget = 1, allocations = [(''a'', 7 / 10), (''b'', 8 / 10)],
            config = \<lparr> totalBudget = 1, modules = [(''a'', 8 / 10), (''b'', 8 / 10)],
               decayRate = 95 / 100, focusThreshold = 1 / 2, emergencyAllocation = 1 / 10 \<rparr>,
            lastUpdate = 0 \<rparr>"
  by (simp add: createAttentionAllocator_def deallocate_def getAllocation_def
      getTotalAllocated_def Let_def within_bound_def)

text \<open>
  With a negative allocation in the map the redistribution of \<open>allocate\<close> raises the
  total: allocations 2 and -1 (total 1, bound 1.1), then 0.1 more for the first module.
\<close>

lemma allocate_negative_allocation_exceeds:
  "within_bound signed_allocator \<and>
   fst (allocate signed_allocator ''focus'' (1 / 10)) = True \<and>
   allocations (snd (allocate signed_allocator ''focus'' (1 / 10))) =
     [(''focus'', 21 / 10), (''drain'', - (9 / 10))] \<and>
   getTotalAllocated (snd (allocate signed_allocator ''focus'' (1 / 10))) = 12 / 10 \<and>
   \<not> within_bound (snd (allocate signed_allocator ''focus'' (1 / 10)))"
  by (simp add: signed_allocator_def createAttentionAllocator_def allocate_def getAllocation_def
      getTotalAllocated_def
      getAvailable_def canRedistribute_def redistributeWithAmount_def Let_def within_bound_def)

text \<open>With a negative emergency allocation the bound lies below the budget:\<close>

lemma allocate_negative_emergency_exceeds:
  "within_bound (createAttentionAllocator
       \<lparr> totalBudget = 1, modules = [], decayRate = 95 / 100, focusThreshold = 1 / 2,
         emergencyAllocation = - (1 / 2) \<rparr> 0) \<and>
   fst (allocate (createAttentionAllocator
       \<lparr> totalBudget = 1, modules = [], decayRate = 95 / 100, focusThreshold = 1 / 2,
         emergencyAllocation = - (1 / 2) \<rparr> 0) ''a'' (8 / 10)) = True \<and>
   \<not> within_bound (snd (allocate (createAttentionAllocator
       \<lparr> totalBudget = 1, modules = [], decayRate = 95 / 100, focusThreshold = 1 / 2,
         emergencyAllocation = - (1 / 2) \<rparr> 0) ''a'' (8 / 10)))"
  by (simp add: createAttentionAllocator_def allocate_def getAllocation_def getTotalAllocated_def
      getAvailable_def canRedistribute_def redistributeWithAmount_def Let_def within_bound_def)

subsection \<open>Competition\<close>

lemma foldl_js_add_Num: "foldl js_add (Num s) (map Num xs) = Num (s + sum_list xs)"
  by (induction xs arbitrary: s) (simp_all add: add.assoc)

lemma lookup_sum_le:
  "list_all (\<lambda>e. 0 \<le> snd e) al \<Longrightarrow> distinct ks \<Longrightarrow>
   sum_list (map (\<lambda>m. case map_of al m of None \<Rightarrow> 0 | Some (v::real) \<Rightarrow> v) ks) \<le> sum_list (map snd al)"
proof (induction al arbitrary: ks)
  case Nil
  then show ?case by simp
next
  case (Cons e al)
  obtain k v where e: "e = (k, v)" by (cases e)
  let ?f = "\<lambda>m. case map_of al m of None \<Rightarrow> 0 | Some (v::real) \<Rightarrow> v"
  have nn: "0 \<le> v" and nnl: "list_all (\<lambda>e. 0 \<le> snd e) al" using Cons.prems e by simp_all
  have f0: "\<And>m. 0 \<le> ?f m" using nonneg_lookup[OF nnl] .
  have "distinct ms \<Longrightarrow> sum_list (map (\<lambda>m. if m = k then v else ?f m) ms) \<le> v + sum_list (map ?f ms)" for ms
  proof (induction ms)
    case Nil
    then show ?case using nn by simp
  next
    case (Cons m ms)
    show ?case
    proof (cases "m = k")
      case True
      then have "k \<notin> set ms" using Cons.prems by simp
      then have "sum_list (map (\<lambda>m. if m = k then v else ?f m) ms) = sum_list (map ?f ms)"
        by (induction ms) auto
      then show ?thesis using True f0[of k] by simp
    next
      case False
      then show ?thesis using Cons by simp
    qed
  qed
  from this[OF Cons.prems(2)]
  have step: "sum_list (map (\<lambda>m. if m = k then v else ?f m) ks) \<le> v + sum_list (map ?f ks)" .
  have ih: "sum_list (map ?f ks) \<le> sum_list (map snd al)" using Cons.IH[OF nnl Cons.prems(2)] .
  have feq: "(\<lambda>m. case map_of (e # al) m of None \<Rightarrow> 0 | Some v \<Rightarrow> v) = (\<lambda>m. if m = k then v else ?f m)"
    by (auto simp: e fun_eq_iff)
  have tot: "sum_list (map snd (e # al)) = v + sum_list (map snd al)" by (simp add: e)
  show ?case unfolding feq tot using step ih by linarith
qed

lemma getAllocation_sum_le:
  assumes "nonneg_allocations a" "distinct ks"
  shows "sum_list (map (getAllocation a) ks) \<le> getTotalAllocated a"
proof -
  have "getAllocation a = (\<lambda>m. case map_of (allocations a) m of None \<Rightarrow> 0 | Some v \<Rightarrow> v)"
    by (simp add: fun_eq_iff getAllocation_def)
  then show ?thesis
    using lookup_sum_le[of "allocations a" ks] assms
    by (simp only: nonneg_allocations_def getTotalAllocated_sum)
qed

lemma competitive_sum_le:
  assumes nn: "nonneg_allocations a" and T: "0 < getTotalAllocated a" and B: "0 \<le> budget a"
    and d: "distinct (map fst demands)"
  shows "sum_list (map (\<lambda>(m, demand). min demand (budget a * (getAllocation a m / getTotalAllocated a))) demands)
         \<le> budget a"
proof -
  let ?T = "getTotalAllocated a" and ?B = "budget a"
  have "sum_list (map (\<lambda>(m, demand). min demand (?B * (getAllocation a m / ?T))) demands)
        \<le> sum_list (map (\<lambda>(m, demand). ?B * (getAllocation a m / ?T)) demands)"
    by (rule sum_list_mono) auto
  also have "\<dots> = sum_list (map (\<lambda>m. ?B / ?T * getAllocation a m) (map fst demands))"
    by (simp add: comp_def case_prod_unfold)
  also have "\<dots> = ?B / ?T * sum_list (map (getAllocation a) (map fst demands))"
    by (simp only: sum_list_const_mult)
  also have "\<dots> \<le> ?B / ?T * ?T"
    using getAllocation_sum_le[OF nn d] B T by (intro mult_left_mono) simp_all
  also have "\<dots> = ?B" using T by simp
  finally show ?thesis .
qed

text \<open>
  Claim C3, as amended. \<open>simulateCompetition\<close> is a function of the allocator and the
  demand map. When the sum of the demands is at most the budget, every module of the demand
  map is granted exactly its demand. When the sum exceeds the budget, and the allocations
  are not negative, their total is positive and the budget is not negative, each module is
  granted the minimum of its demand and budget times its current allocation divided by
  the total allocation, and the granted amounts add up to at most the budget.
\<close>

theorem simulateCompetition_grants:
  "(foldl (+) 0 (map snd demands) \<le> budget a \<longrightarrow>
      simulateCompetition a demands = map (\<lambda>(m, demand). (m, Num demand)) demands) \<and>
   (foldl (+) 0 (map snd demands) > budget a \<and> nonneg_allocations a \<and> 0 < getTotalAllocated a \<and>
    0 \<le> budget a \<and> distinct (map fst demands) \<longrightarrow>
      simulateCompetition a demands =
        map (\<lambda>(m, demand). (m, Num (min demand (budget a * getAllocation a m / getTotalAllocated a))))
          demands \<and>
      js_le (granted_total (simulateCompetition a demands)) (budget a))"
proof (intro conjI impI)
  assume "foldl (+) 0 (map snd demands) \<le> budget a"
  then show "simulateCompetition a demands = map (\<lambda>(m, demand). (m, Num demand)) demands"
    by (simp add: simulateCompetition_def)
next
  assume h: "foldl (+) 0 (map snd demands) > budget a \<and> nonneg_allocations a \<and>
    0 < getTotalAllocated a \<and> 0 \<le> budget a \<and> distinct (map fst demands)"
  then show eq: "simulateCompetition a demands =
      map (\<lambda>(m, demand). (m, Num (min demand (budget a * getAllocation a m / getTotalAllocated a)))) demands"
    by (simp add: simulateCompetition_def js_div_def Let_def)
  have "map snd (simulateCompetition a demands) =
      map Num (map (\<lambda>(m, demand). min demand (budget a * (getAllocation a m / getTotalAllocated a))) demands)"
    by (simp add: eq comp_def case_prod_unfold)
  then have "granted_total (simulateCompetition a demands) =
      Num (sum_list (map (\<lambda>(m, demand). min demand (budget a * (getAllocation a m / getTotalAllocated a))) demands))"
    by (simp only: granted_total_def foldl_js_add_Num) simp
  then show "js_le (granted_total (simulateCompetition a demands)) (budget a)"
    using competitive_sum_le[of a demands] h by simp
qed

text \<open>
  The theorem at the scenario's allocator (budget 1, allocations 0.3, 0.4 and 0.3) with
  the demands 0.5 for perception and 0.9 for reasoning: they are granted 0.3 and 0.4.
\<close>

theorem simulateCompetition_grants_witness:
  "nonneg_allocations scenario_allocator \<and> 0 < getTotalAllocated scenario_allocator \<and>
   0 \<le> budget scenario_allocator \<and>
   distinct (map fst [(''perception'', 5 / 10 :: real), (''reasoning'', 9 / 10)]) \<and>
   foldl (+) 0 (map snd [(''perception'', 5 / 10 :: real), (''reasoning'', 9 / 10)]) > budget scenario_allocator \<and>
   simulateCompetition scenario_allocator [(''perception'', 5 / 10), (''reasoning'', 9 / 10)] =
     [(''perception'', Num (3 / 10)), (''reasoning'', Num (4 / 10))] \<and>
   js_le (granted_total (simulateCompetition scenario_allocator [(''perception'', 5 / 10), (''reasoning'', 9 / 10)]))
     (budget scenario_allocator)"
proof -
  have h1: "nonneg_allocations scenario_allocator"
    by (simp add: scenario_allocator_def scenario_config_def createAttentionAllocator_def
        nonneg_allocations_def)
  have h2: "0 < getTotalAllocated scenario_allocator"
    by (simp add: scenario_allocator_def scenario_config_def createAttentionAllocator_def
        getTotalAllocated_def)
  have h3: "0 \<le> budget scenario_allocator"
    by (simp add: scenario_allocator_def scenario_config_def createAttentionAllocator_def)
  have h4: "distinct (map fst [(''perception'', 5 / 10 :: real), (''reasoning'', 9 / 10)])" by simp
  have over: "foldl (+) 0 (map snd [(''perception'', 5 / 10 :: real), (''reasoning'', 9 / 10)])
      > budget scenario_allocator" by (simp add: scenario_allocator_def scenario_config_def createAttentionAllocator_def)
  have vals: "getAllocation scenario_allocator ''perception'' = 3 / 10"
    "getAllocation scenario_allocator ''reasoning'' = 4 / 10"
    "getTotalAllocated scenario_allocator = 1" "budget scenario_allocator = 1"
    by (simp_all add: scenario_allocator_def scenario_config_def createAttentionAllocator_def
        getAllocation_def getTotalAllocated_def)
  from simulateCompetition_grants[of "[(''perception'', 5 / 10), (''reasoning'', 9 / 10)]" scenario_allocator]
    h1 h2 h3 h4 over
  have "simulateCompetition scenario_allocator [(''perception'', 5 / 10), (''reasoning'', 9 / 10)] =
      map (\<lambda>(m, demand). (m, Num (min demand (budget scenario_allocator * getAllocation scenario_allocator m
            / getTotalAllocated scenario_allocator))))
        [(''perception'', 5 / 10), (''reasoning'', 9 / 10)]"
    and le: "js_le (granted_total (simulateCompetition scenario_allocator
        [(''perception'', 5 / 10), (''reasoning'', 9 / 10)])) (budget scenario_allocator)"
    by blast+
  then have "simulateCompetition scenario_allocator [(''perception'', 5 / 10), (''reasoning'', 9 / 10)] =
     [(''perception'', Num (3 / 10)), (''reasoning'', Num (4 / 10))]"
    by (simp add: vals)
  with h1 h2 h3 h4 over le show ?thesis by blast
qed

text \<open>
  Claim C3 as stated fails where an allocation is negative: with budget 1 and allocations
  2 and -1 (total 1), the single demand of 5 exceeds the budget and is granted
  \<open>min(5, 1 * (2 / 1)) = 2\<close>, more than the budget.
\<close>

theorem simulateCompetition_signed_exceeds:
  "foldl (+) 0 (map snd [(''focus'', 5 :: real)]) > budget signed_allocator \<and>
   simulateCompetition signed_allocator [(''focus'', 5)] = [(''focus'', Num 2)] \<and>
   granted_total (simulateCompetition signed_allocator [(''focus'', 5)]) = Num 2 \<and>
   \<not> js_le (granted_total (simulateCompetition signed_allocator [(''focus'', 5)])) (budget signed_allocator)"
  by (simp add: signed_allocator_def createAttentionAllocator_def getAllocation_def
      getTotalAllocated_def simulateCompetition_def granted_total_def js_div_def)

text \<open>
  It fails as well where the total allocation is zero, as in an allocator without modules:
  the weight is \<open>0 / 0\<close> and the granted amount is \<open>NaN\<close>, of which \<open><=\<close> holds for no budget.
\<close>

lemma simulateCompetition_zero_total:
  "foldl (+) 0 (map snd [(''a'', 2 :: real)]) > budget empty_allocator \<and>
   simulateCompetition empty_allocator [(''a'', 2)] = [(''a'', NaN)] \<and>
   \<not> js_le (granted_total (simulateCompetition empty_allocator [(''a'', 2)])) (budget empty_allocator)"
  by (simp add: empty_allocator_def createAttentionAllocator_def getAllocation_def
      getTotalAllocated_def simulateCompetition_def granted_total_def js_div_def)

text \<open>
  And where the budget is negative: budget -1, allocations 1 and 1, a demand of 0 for the
  first module, which is granted \<open>min(0, -1 * (1 / 2)) = -0.5\<close>.
\<close>

lemma simulateCompetition_negative_budget:
  "simulateCompetition
     \<lparr> budget = - 1, allocations = [(''a'', 1), (''b'', 1)], config = scenario_config, lastUpdate = 0 \<rparr>
     [(''a'', 0)] = [(''a'', Num (- (1 / 2)))] \<and>
   \<not> js_le (granted_total (simulateCompetition
     \<lparr> budget = - 1, allocations = [(''a'', 1), (''b'', 1)], config = scenario_config, lastUpdate = 0 \<rparr>
     [(''a'', 0)])) (- 1)"
  by (simp add: getAllocation_def getTotalAllocated_def simulateCompetition_def
      granted_total_def js_div_def)

section \<open>Properties of the hypergraph store\<close>

subsection \<open>What \<open>removeLink\<close> and the loops of \<open>removeNode\<close> do to the adjacency lists\<close>

lemma dom_removeLink: "dom (removeLink g f t) = dom g"
  by (auto simp: removeLink_def Let_def split: option.splits if_splits)

lemma out_of_removeLink:
  "out_of (removeLink g f t) k = (if k = f then filter (\<lambda>i. i \<noteq> t) (out_of g k) else out_of g k)"
  by (auto simp: removeLink_def out_of_def Let_def split: option.splits if_splits)

lemma in_of_removeLink:
  "in_of (removeLink g f t) k = (if k = t then filter (\<lambda>i. i \<noteq> f) (in_of g k) else in_of g k)"
  by (auto simp: removeLink_def in_of_def Let_def split: option.splits if_splits)

lemma out_of_fold_in:
  "out_of (fold (\<lambda>x h. removeLink h x i) xs g) k =
     (if k \<in> set xs then filter (\<lambda>j. j \<noteq> i) (out_of g k) else out_of g k)"
  by (induction xs arbitrary: g) (auto simp: out_of_removeLink)

lemma in_of_fold_in:
  "in_of (fold (\<lambda>x h. removeLink h x i) xs g) k =
     (if k = i then filter (\<lambda>j. j \<notin> set xs) (in_of g k) else in_of g k)"
  by (induction xs arbitrary: g) (auto simp: in_of_removeLink intro: filter_cong)

lemma out_of_fold_out:
  "out_of (fold (\<lambda>y h. removeLink h i y) ys g) k =
     (if k = i then filter (\<lambda>j. j \<notin> set ys) (out_of g k) else out_of g k)"
  by (induction ys arbitrary: g) (auto simp: out_of_removeLink intro: filter_cong)

lemma in_of_fold_out:
  "in_of (fold (\<lambda>y h. removeLink h i y) ys g) k =
     (if k \<in> set ys then filter (\<lambda>j. j \<noteq> i) (in_of g k) else in_of g k)"
  by (induction ys arbitrary: g) (auto simp: in_of_removeLink)

lemma out_of_delete: "out_of (g(i := None)) k = (if k = i then [] else out_of g k)"
  by (simp add: out_of_def)

lemma in_of_delete: "in_of (g(i := None)) k = (if k = i then [] else in_of g k)"
  by (simp add: in_of_def)

text \<open>The adjacency lists after \<open>removeNode\<close>, in terms of the lists before.\<close>

lemma removeNode_lists:
  assumes "g i = Some node"
  shows "out_of (removeNode g i) k =
           (if k = i then [] else if k \<in> set (in_of g i) then filter (\<lambda>j. j \<noteq> i) (out_of g k) else out_of g k)"
    and "in_of (removeNode g i) k =
           (if k = i then []
            else if k \<in> set (filter (\<lambda>j. j \<noteq> i \<or> i \<notin> set (in_of g i)) (out_of g i))
                 then filter (\<lambda>j. j \<noteq> i) (in_of g k) else in_of g k)"
proof -
  define g1 where "g1 = fold (\<lambda>incomingId h. removeLink h incomingId i) (incoming node) g"
  define ys where "ys = out_of g1 i"
  define g2 where "g2 = fold (\<lambda>outgoingId h. removeLink h i outgoingId) ys g1"
  have rn: "removeNode g i = g2(i := None)"
    using assms by (simp add: removeNode_def Let_def g1_def g2_def ys_def out_of_def)
  have inc: "incoming node = in_of g i"
    using assms by (simp add: in_of_def)
  have ys: "set ys = set (filter (\<lambda>j. j \<noteq> i \<or> i \<notin> set (in_of g i)) (out_of g i))"
    by (auto simp: ys_def g1_def out_of_fold_in inc)
  show "out_of (removeNode g i) k =
      (if k = i then [] else if k \<in> set (in_of g i) then filter (\<lambda>j. j \<noteq> i) (out_of g k) else out_of g k)"
    by (simp add: rn out_of_delete g2_def g1_def out_of_fold_out out_of_fold_in inc)
  show "in_of (removeNode g i) k =
      (if k = i then []
       else if k \<in> set (filter (\<lambda>j. j \<noteq> i \<or> i \<notin> set (in_of g i)) (out_of g i))
            then filter (\<lambda>j. j \<noteq> i) (in_of g k) else in_of g k)"
    unfolding ys[symmetric]
    by (simp add: rn in_of_delete g2_def g1_def in_of_fold_out in_of_fold_in)
qed

lemma removeNode_unreferenced:
  assumes c: "consistent g"
  shows "\<not> referenced (removeNode g i) i"
proof (cases "g i")
  case None
  then have "in_of g i = []" "out_of g i = []" by (simp_all add: in_of_def out_of_def)
  with c have "\<And>k. i \<notin> set (out_of g k) \<and> i \<notin> set (in_of g k)"
    unfolding consistent_def by (metis empty_iff empty_set)
  with None show ?thesis by (simp add: removeNode_def referenced_def)
next
  case (Some node)
  have "i \<notin> set (out_of (removeNode g i) k) \<and> i \<notin> set (in_of (removeNode g i) k)" for k
  proof (cases "k = i")
    case True
    then show ?thesis by (simp add: removeNode_lists[of g i node, OF Some])
  next
    case False
    have "i \<in> set (out_of g k) \<Longrightarrow> k \<in> set (in_of g i)"
      and "i \<in> set (in_of g k) \<Longrightarrow> k \<in> set (out_of g i)"
      using c unfolding consistent_def by blast+
    with False show ?thesis by (auto simp: removeNode_lists[of g i node, OF Some])
  qed
  then show ?thesis by (simp add: referenced_def)
qed

subsection \<open>Nodes stay stored under their ids\<close>

lemma keyed_by_id_empty: "keyed_by_id Map.empty"
  by (simp add: keyed_by_id_def)

lemma keyed_by_id_addNode: "keyed_by_id g \<Longrightarrow> keyed_by_id (addNode g node)"
  by (simp add: keyed_by_id_def addNode_def)

lemma keyed_by_id_removeLink: "keyed_by_id g \<Longrightarrow> keyed_by_id (removeLink g f t)"
  unfolding keyed_by_id_def removeLink_def Let_def
  by (auto split: option.splits if_splits)

lemma keyed_by_id_fold:
  "keyed_by_id g \<Longrightarrow> (\<And>h x. keyed_by_id h \<Longrightarrow> keyed_by_id (f x h)) \<Longrightarrow> keyed_by_id (fold f xs g)"
  by (induction xs arbitrary: g) simp_all

lemma keyed_by_id_removeNode: "keyed_by_id g \<Longrightarrow> keyed_by_id (removeNode g i)"
proof (cases "g i")
  case None
  assume "keyed_by_id g"
  with None show ?thesis by (simp add: removeNode_def)
next
  case (Some node)
  assume k: "keyed_by_id g"
  have "keyed_by_id h \<Longrightarrow> keyed_by_id (h(i := None))" for h
    by (simp add: keyed_by_id_def)
  with Some k show ?thesis
    by (simp add: removeNode_def Let_def keyed_by_id_fold keyed_by_id_removeLink)
qed

lemma addLink_present:
  assumes "g a = Some na" "g b = Some nb"
  shows "\<exists>g'. addLink g a b = Inr g' \<and> dom g' = dom g \<and> b \<in> set (out_of g' a) \<and> a \<in> set (in_of g' b)
          \<and> (keyed_by_id g \<longrightarrow> keyed_by_id g')"
  using assms unfolding addLink_def Let_def out_of_def in_of_def keyed_by_id_def
  by (auto split: option.splits if_splits)

lemma keyed_by_id_addLink: "keyed_by_id g \<Longrightarrow> addLink g a b = Inr g' \<Longrightarrow> keyed_by_id g'"
  unfolding addLink_def Let_def keyed_by_id_def
  by (auto split: option.splits if_splits)

text \<open>\<open>getOutgoing\<close> and \<open>getIncoming\<close> return the stored nodes of the ids in the lists.\<close>

lemma among_map_filter:
  assumes "keyed_by_id g"
  shows "among i (List.map_filter g ks) \<longleftrightarrow> i \<in> set ks \<and> i \<in> dom g"
proof (induction ks)
  case Nil
  then show ?case by (simp add: among_def)
next
  case (Cons k ks)
  show ?case
  proof (cases "g k")
    case None
    with Cons show ?thesis by (auto simp: among_def)
  next
    case (Some n)
    with assms have "node_id n = k" by (simp add: keyed_by_id_def)
    with Some Cons show ?thesis by (auto simp: among_def)
  qed
qed

lemma among_getOutgoing:
  assumes "keyed_by_id g"
  shows "among b (getOutgoing g a) \<longleftrightarrow> b \<in> set (out_of g a) \<and> b \<in> dom g"
proof (cases "g a")
  case None
  then show ?thesis by (simp add: getOutgoing_def out_of_def among_def)
next
  case (Some n)
  then show ?thesis using among_map_filter[OF assms] by (simp add: getOutgoing_def out_of_def)
qed

lemma among_getIncoming:
  assumes "keyed_by_id g"
  shows "among a (getIncoming g b) \<longleftrightarrow> a \<in> set (in_of g b) \<and> a \<in> dom g"
proof (cases "g b")
  case None
  then show ?thesis by (simp add: getIncoming_def in_of_def among_def)
next
  case (Some n)
  then show ?thesis using among_map_filter[OF assms] by (simp add: getIncoming_def in_of_def)
qed

subsection \<open>The consistent graphs are closed under the link and removal operations\<close>

lemma consistent_empty: "consistent Map.empty"
  by (simp add: consistent_def out_of_def in_of_def)

lemma consistent_addNode_fresh:
  assumes "consistent g" "g (node_id node) = None" "outgoing node = []" "incoming node = []"
  shows "consistent (addNode g node)"
proof -
  have o: "out_of (addNode g node) k = out_of g k" and i: "in_of (addNode g node) k = in_of g k" for k
    using assms(2-4) by (simp_all add: addNode_def out_of_def in_of_def)
  show ?thesis using assms(1) by (simp add: consistent_def o i)
qed

lemma consistent_removeLink: "consistent g \<Longrightarrow> consistent (removeLink g f t)"
  unfolding consistent_def by (auto simp: out_of_removeLink in_of_removeLink)

lemma addLink_lists:
  assumes "addLink g a b = Inr g'"
  shows "set (out_of g' k) = (if k = a then insert b (set (out_of g k)) else set (out_of g k))"
    and "set (in_of g' k) = (if k = b then insert a (set (in_of g k)) else set (in_of g k))"
  using assms unfolding addLink_def Let_def out_of_def in_of_def
  by (auto split: option.splits if_splits)

lemma consistent_addLink: "consistent g \<Longrightarrow> addLink g a b = Inr g' \<Longrightarrow> consistent g'"
  unfolding consistent_def by (auto simp: addLink_lists)

lemma consistent_removeNode:
  assumes c: "consistent g"
  shows "consistent (removeNode g i)"
proof (cases "g i")
  case None
  with c show ?thesis by (simp add: removeNode_def)
next
  case (Some node)
  have sub: "set (out_of (removeNode g i) k) \<subseteq> set (out_of g k)"
      "set (in_of (removeNode g i) k) \<subseteq> set (in_of g k)" for k
    by (auto simp: removeNode_lists[of g i node, OF Some])
  have keep: "j \<in> set (out_of g k) \<Longrightarrow> j \<noteq> i \<Longrightarrow> k \<noteq> i \<Longrightarrow> j \<in> set (out_of (removeNode g i) k)"
      "j \<in> set (in_of g k) \<Longrightarrow> j \<noteq> i \<Longrightarrow> k \<noteq> i \<Longrightarrow> j \<in> set (in_of (removeNode g i) k)" for j k
    by (auto simp: removeNode_lists[of g i node, OF Some])
  have un: "i \<notin> set (out_of (removeNode g i) k)" "i \<notin> set (in_of (removeNode g i) k)" for k
    using removeNode_unreferenced[OF c, of i] by (auto simp: referenced_def)
  have em: "out_of (removeNode g i) i = []" "in_of (removeNode g i) i = []"
    by (simp_all add: removeNode_lists[of g i node, OF Some])
  show ?thesis
    unfolding consistent_def
  proof (intro allI conjI impI)
    fix a b
    assume m: "b \<in> set (out_of (removeNode g i) a)"
    then have "b \<noteq> i" "a \<noteq> i" using un em by auto
    moreover from m sub c have "a \<in> set (in_of g b)" unfolding consistent_def by blast
    ultimately show "a \<in> set (in_of (removeNode g i) b)" using keep by blast
  next
    fix a b
    assume m: "b \<in> set (in_of (removeNode g i) a)"
    then have "b \<noteq> i" "a \<noteq> i" using un em by auto
    moreover from m sub c have "a \<in> set (out_of g b)" unfolding consistent_def by blast
    ultimately show "a \<in> set (out_of (removeNode g i) b)" using keep by blast
  qed
qed

subsection \<open>Links and removal\<close>

text \<open>
  What the link operations do. In a hypergraph that stores every node under its id, for
  every pair of nodes \<open>a\<close>, \<open>b\<close> present: \<open>addLink(a,b)\<close> succeeds, and after it \<open>b\<close> is among
  \<open>getOutgoing(a)\<close> and \<open>a\<close> is among \<open>getIncoming(b)\<close>; after \<open>removeLink(a,b)\<close> neither
  membership holds. And as long as the adjacency lists agree in both directions,
  \<open>removeNode(id)\<close> leaves no node with the id in its incoming or outgoing adjacency list.
  (\<open>addLink\<close>, \<open>removeLink\<close> and \<open>removeNode\<close> keep the lists in agreement; \<open>addNode\<close> on an
  id that is already linked does not, see below.)
\<close>

theorem link_and_removal:
  "(keyed_by_id g \<and> a \<in> dom g \<and> b \<in> dom g \<longrightarrow>
      (\<exists>g'. addLink g a b = Inr g' \<and> among b (getOutgoing g' a) \<and> among a (getIncoming g' b)) \<and>
      \<not> among b (getOutgoing (removeLink g a b) a) \<and> \<not> among a (getIncoming (removeLink g a b) b)) \<and>
   (consistent g \<longrightarrow> \<not> referenced (removeNode g i) i)"
proof (intro conjI impI)
  assume h: "keyed_by_id g \<and> a \<in> dom g \<and> b \<in> dom g"
  then obtain na nb where "g a = Some na" "g b = Some nb" by auto
  from addLink_present[OF this] h obtain g' where g': "addLink g a b = Inr g'" "dom g' = dom g"
    "b \<in> set (out_of g' a)" "a \<in> set (in_of g' b)" "keyed_by_id g'" by auto
  then have "among b (getOutgoing g' a)" "among a (getIncoming g' b)"
    using h by (simp_all add: among_getOutgoing among_getIncoming)
  with g' show "\<exists>g'. addLink g a b = Inr g' \<and> among b (getOutgoing g' a) \<and> among a (getIncoming g' b)"
    by blast
  have k: "keyed_by_id (removeLink g a b)" using h keyed_by_id_removeLink by blast
  show "\<not> among b (getOutgoing (removeLink g a b) a)"
    by (simp add: among_getOutgoing[OF k] out_of_removeLink)
  show "\<not> among a (getIncoming (removeLink g a b) b)"
    by (simp add: among_getIncoming[OF k] in_of_removeLink)
next
  assume "consistent g"
  then show "\<not> referenced (removeNode g i) i" by (rule removeNode_unreferenced)
qed

text \<open>The example graphs, written out.\<close>

lemma two_nodes_eq:
  "two_nodes = [''A'' \<mapsto> createHypergraphNode ''A'' ''concept'' [],
                ''B'' \<mapsto> createHypergraphNode ''B'' ''concept'' []]"
  by (simp add: two_nodes_def addNode_def createHypergraphNode_def)

lemma addLink_two_nodes: "addLink two_nodes ''A'' ''B'' = Inr linked_graph"
  by (simp add: linked_graph_def two_nodes_eq addLink_def Let_def)

lemma linked_graph_eq:
  "linked_graph = [''A'' \<mapsto> (createHypergraphNode ''A'' ''concept'' [])\<lparr>outgoing := [''B'']\<rparr>,
                   ''B'' \<mapsto> (createHypergraphNode ''B'' ''concept'' [])\<lparr>incoming := [''A'']\<rparr>]"
  by (simp add: linked_graph_def two_nodes_eq addLink_def Let_def createHypergraphNode_def)

lemma linked_graph_wf: "keyed_by_id linked_graph" "consistent linked_graph"
proof -
  have k: "keyed_by_id two_nodes"
    by (simp add: two_nodes_def keyed_by_id_addNode keyed_by_id_empty)
  have c: "consistent two_nodes"
    unfolding two_nodes_def
    by (intro consistent_addNode_fresh consistent_empty)
       (simp_all add: createHypergraphNode_def addNode_def)
  from keyed_by_id_addLink[OF k addLink_two_nodes] show "keyed_by_id linked_graph" .
  from consistent_addLink[OF c addLink_two_nodes] show "consistent linked_graph" .
qed

text \<open>
  The theorem at the linked graph: the link from \<open>A\<close> to \<open>B\<close> is there, \<open>addLink\<close> keeps it,
  \<open>removeLink\<close> removes it, and after \<open>removeNode('B')\<close> nothing refers to \<open>B\<close>.
\<close>

theorem link_and_removal_witness:
  "keyed_by_id linked_graph \<and> ''A'' \<in> dom linked_graph \<and> ''B'' \<in> dom linked_graph \<and>
   consistent linked_graph \<and>
   out_of linked_graph ''A'' = [''B''] \<and> in_of linked_graph ''B'' = [''A''] \<and>
   (\<exists>g'. addLink linked_graph ''A'' ''B'' = Inr g' \<and>
      among ''B'' (getOutgoing g' ''A'') \<and> among ''A'' (getIncoming g' ''B'')) \<and>
   \<not> among ''B'' (getOutgoing (removeLink linked_graph ''A'' ''B'') ''A'') \<and>
   \<not> among ''A'' (getIncoming (removeLink linked_graph ''A'' ''B'') ''B'') \<and>
   \<not> referenced (removeNode linked_graph ''B'') ''B''"
proof -
  have d: "''A'' \<in> dom linked_graph" "''B'' \<in> dom linked_graph"
    by (simp_all add: linked_graph_eq)
  have l: "out_of linked_graph ''A'' = [''B'']" "in_of linked_graph ''B'' = [''A'']"
    by (simp_all add: linked_graph_eq out_of_def in_of_def createHypergraphNode_def)
  from link_and_removal[of linked_graph "''A''" "''B''" "''B''"] linked_graph_wf d l
  show ?thesis by blast
qed

text \<open>
  Claim C2: after \<open>removeNode(id)\<close> no remaining node should hold \<open>id\<close> in an adjacency
  list, which is also what the comment in \<open>removeNode\<close> says it does (``Remove all links to
  this node''). The code does not: \<open>removeNode\<close> walks the adjacency lists of the node it
  removes and nothing else, and \<open>addNode\<close> replaces a stored node together with its lists
  without touching the neighbours, so the lists of the stored node need not record the
  links that point to it. After \<open>addNode(A)\<close>, \<open>addNode(B)\<close>, \<open>addLink('A','B')\<close> and a second
  \<open>addNode\<close> of a new node with id \<open>A\<close> and empty lists, the node \<open>B\<close> still lists \<open>A\<close> as
  incoming while the stored \<open>A\<close> lists nothing; \<open>removeNode('A')\<close> then deletes \<open>A\<close> and
  leaves the reference in \<open>B\<close>.
\<close>

theorem removeNode_leaves_reference:
  "addLink two_nodes ''A'' ''B'' = Inr linked_graph \<and>
   stale_graph = addNode linked_graph (createHypergraphNode ''A'' ''concept'' []) \<and>
   getNode (removeNode stale_graph ''A'') ''A'' = None \<and>
   in_of (removeNode stale_graph ''A'') ''B'' = [''A''] \<and>
   referenced (removeNode stale_graph ''A'') ''A''"
proof -
  have s: "stale_graph = [''A'' \<mapsto> createHypergraphNode ''A'' ''concept'' [],
      ''B'' \<mapsto> (createHypergraphNode ''B'' ''concept'' [])\<lparr>incoming := [''A'']\<rparr>]"
    by (simp add: stale_graph_def linked_graph_eq addNode_def createHypergraphNode_def fun_eq_iff)
  have r: "removeNode stale_graph ''A'' =
      [''B'' \<mapsto> (createHypergraphNode ''B'' ''concept'' [])\<lparr>incoming := [''A'']\<rparr>]"
    by (simp add: s removeNode_def Let_def createHypergraphNode_def fun_eq_iff)
  have i: "in_of (removeNode stale_graph ''A'') ''B'' = [''A'']"
    by (simp add: r in_of_def createHypergraphNode_def)
  then have "referenced (removeNode stale_graph ''A'') ''A''"
    unfolding referenced_def by (intro exI[of _ "''B''"]) simp
  moreover have "getNode (removeNode stale_graph ''A'') ''A'' = None"
    by (simp add: getNode_def r)
  ultimately show ?thesis
    using i addLink_two_nodes stale_graph_def by blast
qed

section \<open>Properties of the inference engine\<close>

text \<open>
  Claim C5. An engine that holds exactly one rule, with premises \<open>p\<close> and \<open>q\<close>, conclusion
  \<open>r\<close> and truth value (0.9, 0.1), whatever its id, name and variable map, answers
  \<open>forwardChain(['p','q'])\<close> with exactly one result: its conclusion is \<open>r\<close> and its strength
  0.9. No pattern is matched on the way, so this holds for every behaviour of \<open>RegExp\<close>.
\<close>

theorem forwardChain_scenario:
  "forwardChain rx
     (addRule createPLNEngine
        \<lparr> rule_id = i, rule_name = nm, premise = [''p'', ''q''], conclusion = ''r'',
          rule_truthValue = \<lparr> strength = 9 / 10, uncertainty = 1 / 10 \<rparr>, variables = vs \<rparr>)
     [''p'', ''q''] =
   Inr [\<lparr> result_conclusion = ''r'', result_premises = [''p'', ''q''], result_rule = i,
          result_truthValue = \<lparr> strength = 9 / 10, uncertainty = 1 / 10 \<rparr>,
          confidence = 81 / 100, steps = 1 \<rparr>]"
  by (simp add: forwardChain_def addRule_def createPLNEngine_def canApplyRule_def applyRule_def
      pln_combineTruthValues_def combineRuleTruthValue_def pln_calculateConfidence_def
      sort_by_confidence_def Let_def)

subsection \<open>Backward chaining\<close>

text \<open>
  A goal of the fact base is answered by \<open>backwardChain\<close> with exactly one result, which
  carries the stored truth value.
\<close>

theorem backwardChain_fact:
  "map_of (facts e) goal = Some tv \<Longrightarrow>
   backwardChain e goal =
     [\<lparr> result_conclusion = goal, result_premises = [], result_rule = ''fact'',
        result_truthValue = tv, confidence = strength tv, steps = 0 \<rparr>]"
  by (simp add: backwardChain_def sort_by_confidence_def)

lemma diamond_engine_eq:
  "diamond_engine =
     \<lparr> rules = [(''r1'', unit_rule ''r1'' [''p''] ''a''), (''r2'', unit_rule ''r2'' [''p''] ''b''),
                (''r3'', unit_rule ''r3'' [''a'', ''b''] ''g'')],
       facts = [(''p'', \<lparr> strength = 1, uncertainty = 0 \<rparr>)], maxInferenceDepth = 10 \<rparr>"
  by (simp add: diamond_engine_def addRule_def addFact_def createPLNEngine_def unit_rule_def)

theorem backwardChain_fact_witness:
  "map_of (facts diamond_engine) ''p'' = Some \<lparr> strength = 1, uncertainty = 0 \<rparr> \<and>
   backwardChain diamond_engine ''p'' =
     [\<lparr> result_conclusion = ''p'', result_premises = [], result_rule = ''fact'',
        result_truthValue = \<lparr> strength = 1, uncertainty = 0 \<rparr>, confidence = 1, steps = 0 \<rparr>]"
proof -
  have f: "map_of (facts diamond_engine) ''p'' = Some \<lparr> strength = 1, uncertainty = 0 \<rparr>"
    by (simp add: diamond_engine_eq)
  from backwardChain_fact[OF f] f show ?thesis by simp
qed

text \<open>
  The results of \<open>backwardChain\<close> come in descending order of confidence (read from the
  last result to the first, the confidences ascend).
\<close>

lemma sorted_descending: "sorted (map uminus (xs :: real list)) \<Longrightarrow> sorted (rev xs)"
  by (induction xs) (auto simp: sorted_append)

theorem backwardChain_sorted: "sorted (rev (map confidence (backwardChain e goal)))"
proof -
  have "sorted (map (\<lambda>r. - confidence r) (backwardChain e goal))"
    unfolding backwardChain_def sort_by_confidence_def by (rule sorted_sort_key)
  then have "sorted (map uminus (map confidence (backwardChain e goal)))"
    by (simp add: comp_def)
  then show ?thesis by (rule sorted_descending)
qed

text \<open>
  Claim C6, the part that fails. The rule base: the fact \<open>p\<close>; \<open>r1\<close> concludes \<open>a\<close> from \<open>p\<close>,
  \<open>r2\<close> concludes \<open>b\<close> from \<open>p\<close>, \<open>r3\<close> concludes \<open>g\<close> from \<open>a\<close> and \<open>b\<close>. Each premise of \<open>r3\<close>
  is provable, and \<open>backwardChain\<close> proves each of them when asked for it. Asked for \<open>g\<close> it
  returns nothing: the proof of \<open>a\<close> has put \<open>p\<close> into the set \<open>visited\<close>, which is shared by
  the whole search, and the proof of \<open>b\<close> then finds \<open>p\<close> visited and gives up.
\<close>

theorem backwardChain_shared_premise:
  "backwardChain diamond_engine ''a'' =
     [\<lparr> result_conclusion = ''a'', result_premises = [''p''], result_rule = ''r1'',
        result_truthValue = \<lparr> strength = 1, uncertainty = 0 \<rparr>, confidence = 1, steps = 0 \<rparr>] \<and>
   backwardChain diamond_engine ''b'' =
     [\<lparr> result_conclusion = ''b'', result_premises = [''p''], result_rule = ''r2'',
        result_truthValue = \<lparr> strength = 1, uncertainty = 0 \<rparr>, confidence = 1, steps = 0 \<rparr>] \<and>
   backwardChain diamond_engine ''g'' = []"
  by (simp add: backwardChain_def diamond_engine_eq unit_rule_def sort_by_confidence_def
      pln_combineTruthValues_def combineRuleTruthValue_def pln_calculateConfidence_def Let_def)

section \<open>Properties of the pattern matcher\<close>








text \<open>
  With a variable the confidence is 1 as well, but the input is bound and need not be the
  pattern: the pattern \<open>{who: '$x'}\<close> matches \<open>{who: 'ann'}\<close> and binds \<open>x\<close>.
\<close>

lemma exact_match_variable:
  "calculateMatchConfidence (JObj [(''who'', JStr ''$x'')]) (JObj [(''who'', JStr ''ann'')]) [] =
     (1, [(''x'', JStr ''ann'')])"
  by (simp add: calculateMatchConfidence_def lookup_in_def is_object_def isVariable_def
      getVariableName_def strict_equal_def)

section \<open>Properties of the kernel registry\<close>

lemma registry_inv_empty: "registry_inv createKernelRegistry"
  by (simp add: registry_inv_def createKernelRegistry_def)

lemma registry_inv_register: "registry_inv r \<Longrightarrow> registry_inv (register r now k)"
  by (auto simp: registry_inv_def register_def)

lemma registry_inv_unregister: "registry_inv r \<Longrightarrow> registry_inv (unregister r i)"
  by (auto simp: registry_inv_def unregister_def)

lemma registry_inv_deactivate: "registry_inv r \<Longrightarrow> registry_inv (deactivate r i)"
  by (auto simp: registry_inv_def deactivate_def split: option.splits if_splits)

lemma begin_activation_errors: "errors (begin_activation state now) = []"
  by (simp add: begin_activation_def)

lemma registry_inv_activate:
  assumes "registry_inv r"
  shows "registry_inv (snd (activate h r now i input))"
proof (cases "kernels r i")
  case None
  with assms show ?thesis by (simp add: activate_def)
next
  case k: (Some k)
  show ?thesis
  proof (cases "states r i")
    case None
    with assms k show ?thesis by (simp add: activate_def)
  next
    case st: (Some st)
    show ?thesis
    proof (cases "h k input")
      case (Inl err)
      obtain msg where "err = Error msg" by (cases err)
      with Inl k st assms show ?thesis
        by (auto simp: activate_def Let_def registry_inv_def begin_activation_errors)
    next
      case (Inr result)
      with k st assms show ?thesis
        by (auto simp: activate_def Let_def registry_inv_def begin_activation_errors)
    qed
  qed
qed

lemma registry_inv_apply_op: "registry_inv r \<Longrightarrow> registry_inv (apply_op h r op)"
  by (cases op)
     (simp_all add: registry_inv_register registry_inv_unregister registry_inv_activate
        registry_inv_deactivate)

lemma registry_inv_foldl: "registry_inv r \<Longrightarrow> registry_inv (foldl (apply_op h) r ops)"
  by (induction ops arbitrary: r) (simp_all add: registry_inv_apply_op)

lemma registry_inv_run_ops: "registry_inv (run_ops h ops)"
  unfolding run_ops_def by (rule registry_inv_foldl[OF registry_inv_empty])

text \<open>
  Claim C9. In a registry reached by registry operations, for every kernel id that is not
  registered: \<open>activate\<close> rejects with the error \<open>Kernel <id> not found\<close> and leaves the
  registry as it is, and \<open>getState\<close> of the id is undefined before and after the call.
\<close>

theorem activate_missing:
  assumes "kernels (run_ops h ops) i = None"
  shows "activate h (run_ops h ops) now i input =
           (Inl (Error (''Kernel '' @ i @ '' not found'')), run_ops h ops) \<and>
         getState (run_ops h ops) i = None \<and>
         getState (snd (activate h (run_ops h ops) now i input)) i = None"
proof -
  have a: "activate h (run_ops h ops) now i input =
      (Inl (Error (''Kernel '' @ i @ '' not found'')), run_ops h ops)"
    using assms by (simp add: activate_def)
  have "dom (kernels (run_ops h ops)) = dom (states (run_ops h ops))"
    using registry_inv_run_ops[of h ops] by (simp add: registry_inv_def)
  with assms have "states (run_ops h ops) i = None" by (metis domIff)
  with a show ?thesis by (simp add: getState_def)
qed

lemma run_ops_registered:
  "run_ops example_handler [Register (template_kernel ''sel'' ActionSelector) 0] =
     \<lparr> kernels = [''sel'' \<mapsto> template_kernel ''sel'' ActionSelector],
       states = [''sel'' \<mapsto> \<lparr> state_id = ''sel'', active = False, lastActivation = 0,
          activationCount = 0, currentAttention = 0, performance = 1, errors = [],
          outputs = JObj [] \<rparr>] \<rparr>"
  by (simp add: run_ops_def createKernelRegistry_def register_def template_kernel_def)

text \<open>The theorem at a registry that holds one kernel, for another id.\<close>

theorem activate_missing_witness:
  "kernels (run_ops example_handler [Register (template_kernel ''sel'' ActionSelector) 0]) ''missing-id'' = None \<and>
   activate example_handler (run_ops example_handler [Register (template_kernel ''sel'' ActionSelector) 0])
       1 ''missing-id'' JUndefined =
     (Inl (Error ''Kernel missing-id not found''),
      run_ops example_handler [Register (template_kernel ''sel'' ActionSelector) 0]) \<and>
   getState (run_ops example_handler [Register (template_kernel ''sel'' ActionSelector) 0]) ''missing-id'' = None \<and>
   getState (snd (activate example_handler
       (run_ops example_handler [Register (template_kernel ''sel'' ActionSelector) 0])
       1 ''missing-id'' JUndefined)) ''missing-id'' = None"
proof -
  have h: "kernels (run_ops example_handler [Register (template_kernel ''sel'' ActionSelector) 0])
      ''missing-id'' = None"
    by (simp add: run_ops_registered)
  from activate_missing[OF h, of 1 JUndefined] h show ?thesis by simp
qed

subsection \<open>Activations that overlap\<close>

text \<open>
  A call of \<open>activate\<close> that runs to its end before anything else happens, as modelled by
  \<open>activate\<close> above, does to the state what its two parts do one after the other.
\<close>

lemma activate_in_steps:
  "kernels r i = Some k \<Longrightarrow> states r i = Some state \<Longrightarrow>
   snd (activate h r now i input) =
     r\<lparr>states := (states r)(i \<mapsto> settle (h k input) (begin_activation state now))\<rparr>"
  by (cases "h k input"; cases "projl (h k input)")
     (auto simp: activate_def settle_def Let_def split: sum.splits error.splits)

lemma errors_inv_empty: "errors_inv emptyAsyncRegistry"
  by (simp add: errors_inv_def emptyAsyncRegistry_def)

lemma errors_inv_register: "errors_inv s \<Longrightarrow> errors_inv (register_object s now k)"
  by (auto simp: errors_inv_def register_object_def nth_append)

lemma errors_inv_unregister: "errors_inv s \<Longrightarrow> errors_inv (unregister_object s i)"
  by (simp add: errors_inv_def unregister_object_def)

lemma errors_inv_deactivate: "errors_inv s \<Longrightarrow> errors_inv (deactivate_object s i)"
  by (auto simp: errors_inv_def deactivate_object_def modify_object_def nth_list_update
      split: option.splits)

lemma errors_inv_call:
  assumes "errors_inv s" and "no_overlap_at s (ActivateCalled i input now)"
  shows "errors_inv (snd (activate_call h s now i input))"
proof (cases "kernel_map s i")
  case None
  with assms show ?thesis by (simp add: activate_call_def)
next
  case k: (Some k)
  show ?thesis
  proof (cases "state_ref s i")
    case None
    with assms k show ?thesis by (simp add: activate_call_def)
  next
    case a: (Some a)
    with assms(2) have fresh: "a \<notin> fst ` set (awaiting s)" by simp
    from k a have eq: "snd (activate_call h s now i input) =
        s\<lparr> state_objects := modify_object a (\<lambda>state. begin_activation state now) (state_objects s),
           awaiting := awaiting s @ [(a, h k input)] \<rparr>"
      by (simp add: activate_call_def)
    show ?thesis
      unfolding eq using assms(1) fresh
      by (auto simp: errors_inv_def modify_object_def nth_list_update begin_activation_errors)
  qed
qed

lemma settle_errors:
  "length (errors (settle outcome state)) \<le> Suc (length (errors state))"
  by (cases outcome; cases "projl outcome") (auto simp: settle_def split: sum.splits error.splits)

lemma errors_inv_resume:
  assumes "errors_inv s"
  shows "errors_inv (activate_resume s n)"
proof (cases "n < length (awaiting s)")
  case False
  with assms show ?thesis by (simp add: activate_resume_def)
next
  case True
  obtain a outcome where an: "awaiting s ! n = (a, outcome)" by (cases "awaiting s ! n")
  let ?rest = "take n (awaiting s) @ drop (Suc n) (awaiting s)"
  from True an have eq: "activate_resume s n =
      s\<lparr> state_objects := modify_object a (settle outcome) (state_objects s), awaiting := ?rest \<rparr>"
    by (simp add: activate_resume_def)
  define ys zs where "ys = take n (awaiting s)" and "zs = drop (Suc n) (awaiting s)"
  from True an have split: "awaiting s = ys @ (a, outcome) # zs"
    unfolding ys_def zs_def by (metis id_take_nth_drop)
  have rest: "?rest = ys @ zs" by (simp add: ys_def zs_def)
  from assms have d: "distinct (map fst (awaiting s))" by (simp add: errors_inv_def)
  from d split have d0: "distinct (map fst (ys @ (a, outcome) # zs))" by simp
  have d': "distinct (map fst ?rest)" unfolding rest using d0 by simp
  have notin: "a \<notin> fst ` set ?rest" unfolding rest using d0 by auto
  have sub: "set ?rest \<subseteq> set (awaiting s)" unfolding rest by (subst split) auto
  have ain: "a \<in> fst ` set (awaiting s)" by (subst split) force
  have "length (errors (modify_object a (settle outcome) (state_objects s) ! b)) \<le> 1 \<and>
        (b \<in> fst ` set ?rest \<longrightarrow> errors (modify_object a (settle outcome) (state_objects s) ! b) = [])"
    if b: "b < length (state_objects s)" for b
  proof (cases "b = a")
    case True
    from assms b ain True have "errors (state_objects s ! a) = []" by (simp add: errors_inv_def)
    with settle_errors[of outcome "state_objects s ! a"] b True notin
    show ?thesis by (simp add: modify_object_def)
  next
    case False
    with b have same: "modify_object a (settle outcome) (state_objects s) ! b = state_objects s ! b"
      by (simp add: modify_object_def)
    from assms b sub show ?thesis unfolding same errors_inv_def by blast
  qed
  moreover have "length (modify_object a (settle outcome) (state_objects s)) = length (state_objects s)"
    by (simp add: modify_object_def)
  ultimately show ?thesis unfolding eq using d' by (simp add: errors_inv_def)
qed

lemma errors_inv_step:
  "errors_inv s \<Longrightarrow> no_overlap_at s e \<Longrightarrow> errors_inv (registry_step h s e)"
  by (cases e)
     (simp_all add: errors_inv_register errors_inv_unregister errors_inv_deactivate
        errors_inv_call errors_inv_resume del: no_overlap_at.simps)

lemma errors_inv_foldl:
  "errors_inv s \<Longrightarrow> no_overlap h s evs \<Longrightarrow> errors_inv (foldl (registry_step h) s evs)"
  by (induction evs arbitrary: s) (simp_all add: errors_inv_step)

lemma no_overlap_take: "no_overlap h s evs \<Longrightarrow> no_overlap h s (take n evs)"
proof (induction evs arbitrary: s n)
  case Nil
  then show ?case by simp
next
  case (Cons e evs)
  then show ?case by (cases n) simp_all
qed

text \<open>
  Claim C10, as amended. At any time in a sequence of registry events in which the
  activations of a kernel do not overlap, the error list of every kernel state holds at
  most one message: registration starts with an empty list, the first part of an activation
  empties the list and the second part appends at most one message. The time is the number
  \<open>n\<close> of events that have happened; it may lie between the two parts of an activation.
\<close>

theorem errors_at_most_one:
  assumes "no_overlap h emptyAsyncRegistry evs"
    and "current_state (run_events h (take n evs)) i = Some st"
  shows "length (errors st) \<le> 1"
proof -
  have "errors_inv (run_events h (take n evs))"
    unfolding run_events_def
    by (rule errors_inv_foldl[OF errors_inv_empty no_overlap_take[OF assms(1)]])
  with assms(2) show ?thesis
    by (auto simp: errors_inv_def current_state_def split: option.splits if_splits)
qed


text \<open>
  The theorem after a registration and two failed activations of the same kernel, the
  second called after the first has ended: the list holds the message of the second
  failure only.
\<close>

theorem errors_at_most_one_witness:
  "no_overlap example_handler emptyAsyncRegistry
     [Registers (template_kernel ''sel'' ActionSelector) 0,
      ActivateCalled ''sel'' JUndefined 1, ActivateResumes 0,
      ActivateCalled ''sel'' JUndefined 2, ActivateResumes 0] \<and>
   map_option errors (current_state (run_events example_handler (take 5
     [Registers (template_kernel ''sel'' ActionSelector) 0,
      ActivateCalled ''sel'' JUndefined 1, ActivateResumes 0,
      ActivateCalled ''sel'' JUndefined 2, ActivateResumes 0])) ''sel'') =
     Some [''Reduce of empty array with no initial value''] \<and>
   length [''Reduce of empty array with no initial value''] \<le> 1"
proof -
  let ?evs = "[Registers (template_kernel ''sel'' ActionSelector) 0,
      ActivateCalled ''sel'' JUndefined 1, ActivateResumes 0,
      ActivateCalled ''sel'' JUndefined 2, ActivateResumes 0]"
  have n: "no_overlap example_handler emptyAsyncRegistry ?evs"
    by (simp add: emptyAsyncRegistry_def register_object_def activate_call_def
        activate_resume_def modify_object_def template_kernel_def)
  obtain st where st: "current_state (run_events example_handler (take 5 ?evs)) ''sel'' = Some st"
    and e: "errors st = [''Reduce of empty array with no initial value'']"
    by (simp add: run_events_def emptyAsyncRegistry_def register_object_def activate_call_def
        activate_resume_def modify_object_def template_kernel_def current_state_def
        begin_activation_def settle_def example_handler_def)
  from errors_at_most_one[OF n st] n st e show ?thesis by simp
qed

text \<open>
  Claim C10 as stated fails when two activations of a kernel overlap: both calls empty the
  list before either handler has been awaited, and both append their message afterwards.
  After \<open>register\<close> and two calls of \<open>activate\<close> on a kernel whose handler fails, made one
  after the other without awaiting the first, the list holds two messages.
\<close>

theorem overlapping_activations_two_errors:
  "\<not> no_overlap example_handler emptyAsyncRegistry
     [Registers (template_kernel ''sel'' ActionSelector) 0,
      ActivateCalled ''sel'' JUndefined 1, ActivateCalled ''sel'' JUndefined 2,
      ActivateResumes 0, ActivateResumes 0] \<and>
   map_option errors (current_state (run_events example_handler
     [Registers (template_kernel ''sel'' ActionSelector) 0,
      ActivateCalled ''sel'' JUndefined 1, ActivateCalled ''sel'' JUndefined 2,
      ActivateResumes 0, ActivateResumes 0]) ''sel'') =
     Some [''Reduce of empty array with no initial value'',
           ''Reduce of empty array with no initial value'']"
  by (simp add: run_events_def emptyAsyncRegistry_def register_object_def activate_call_def
        activate_resume_def modify_object_def template_kernel_def current_state_def
        begin_activation_def settle_def example_handler_def)

end
